theory Spec2Isabelle
  imports Main "HOL-Library.AList" "HOL-Library.Sublist"
begin

section \<open>Python values and exceptions\<close>

text \<open>
  The values the client passes around are what \<^verbatim>\<open>json\<close> decodes to and what callers
  put into payload dictionaries: \<^verbatim>\<open>None\<close>, booleans, integers, strings, lists and
  dictionaries with string keys (in insertion order). Floating point numbers are left out:
  no function of the client looks inside a number.
\<close>

datatype pyval =
    PNone
  | PBool bool
  | PInt int
  | PStr string
  | PList "pyval list"
  | PDict "(string \<times> pyval) list"

text \<open>
  Modelled from the spec: the exception classes of \<^verbatim>\<open>exceptions.py\<close>, which
  \<^verbatim>\<open>client.py\<close> and \<^verbatim>\<open>endpoints.py\<close> import, each carrying
  its message. \<open>TypeError\<close> is Python's own, raised when a value that is not iterable is
  iterated or turned into a set.
\<close>

datatype error =
    RateLimitException string
  | NotFoundException string
  | RestClientException string
  | ValidationError string
  | TypeError

text \<open>Truthiness, as \<^verbatim>\<open>if x\<close> and \<^verbatim>\<open>not x\<close> test it.\<close>

fun truthy :: "pyval \<Rightarrow> bool" where
  "truthy PNone = False"
| "truthy (PBool b) = b"
| "truthy (PInt i) = (i \<noteq> 0)"
| "truthy (PStr s) = (s \<noteq> [])"
| "truthy (PList xs) = (xs \<noteq> [])"
| "truthy (PDict kvs) = (kvs \<noteq> [])"

text \<open>
  \<^verbatim>\<open>for record in x\<close>: a list gives its elements, a dictionary its keys, a string its
  characters; anything else raises \<open>TypeError\<close>.
\<close>

fun py_iter :: "pyval \<Rightarrow> error + pyval list" where
  "py_iter (PList xs) = Inr xs"
| "py_iter (PDict kvs) = Inr (map (\<lambda>kv. PStr (fst kv)) kvs)"
| "py_iter (PStr s) = Inr (map (\<lambda>ch. PStr [ch]) s)"
| "py_iter v = Inl TypeError"

fun hashable :: "pyval \<Rightarrow> bool" where
  "hashable (PList xs) = False"
| "hashable (PDict kvs) = False"
| "hashable v = True"

text \<open>
  \<^verbatim>\<open>set(x)\<close>: the items \<^verbatim>\<open>x\<close> iterates over, all of which must be hashable. The set is
  kept as the list of its members; only membership is asked of it.
\<close>

definition py_set :: "pyval \<Rightarrow> error + pyval list" where
  "py_set v =
     (case py_iter v of
        Inl e \<Rightarrow> Inl e
      | Inr xs \<Rightarrow> if list_all hashable xs then Inr xs else Inl TypeError)"

text \<open>\<^verbatim>\<open>{k1, ..., kn} <= set(x)\<close> for string keys.\<close>

definition has_keys :: "string list \<Rightarrow> pyval \<Rightarrow> error + bool" where
  "has_keys ks v =
     (case py_set v of
        Inl e \<Rightarrow> Inl e
      | Inr xs \<Rightarrow> Inr (list_all (\<lambda>k. PStr k \<in> set xs) ks))"

text \<open>\<^verbatim>\<open>str(i)\<close> for an integer, as an f-string formats it.\<close>

fun digits10 :: "nat \<Rightarrow> string" where
  "digits10 n =
     (if n < 10 then [''0123456789'' ! n]
      else digits10 (n div 10) @ [''0123456789'' ! (n mod 10)])"

definition str_int :: "int \<Rightarrow> string" where
  "str_int i = (if i < 0 then CHR ''-'' # digits10 (nat (- i)) else digits10 (nat i))"

text \<open>
  The text of a \<^verbatim>\<open>bytes\<close> object in an f-string (its \<^verbatim>\<open>repr\<close>): \<^verbatim>\<open>b'...'\<close>, in double
  quotes when the bytes hold a single quote and no double quote; the quote character and
  the backslash are escaped, tab, newline and carriage return are written \<^verbatim>\<open>\t \n \r\<close>,
  and every other byte outside the printable ASCII range is written \<^verbatim>\<open>\xhh\<close>.
\<close>

definition escape_byte :: "char \<Rightarrow> char \<Rightarrow> string" where
  "escape_byte quote ch =
     (if ch = quote \<or> ch = CHR 0x5C then [CHR 0x5C, ch]
      else if ch = CHR 0x09 then [CHR 0x5C, CHR ''t'']
      else if ch = CHR 0x0A then [CHR 0x5C, CHR ''n'']
      else if ch = CHR 0x0D then [CHR 0x5C, CHR ''r'']
      else if (of_char ch :: nat) < 32 \<or> 127 \<le> (of_char ch :: nat) then
        [CHR 0x5C, CHR ''x'',
         ''0123456789abcdef'' ! ((of_char ch :: nat) div 16),
         ''0123456789abcdef'' ! ((of_char ch :: nat) mod 16)]
      else [ch])"

definition bytes_repr :: "string \<Rightarrow> string" where
  "bytes_repr bs =
     (let quote = (if CHR 0x27 \<in> set bs \<and> CHR 0x22 \<notin> set bs then CHR 0x22 else CHR 0x27)
      in CHR ''b'' # quote # concat (map (escape_byte quote) bs) @ [quote])"

text \<open>\<^verbatim>\<open>sep.join(xs)\<close>.\<close>

fun join :: "string \<Rightarrow> string list \<Rightarrow> string" where
  "join sep [] = []"
| "join sep [x] = x"
| "join sep (x # y # ys) = x @ sep @ join sep (y # ys)"

text \<open>\<^verbatim>\<open>a | b\<close> on dictionaries: the entries of \<^verbatim>\<open>a\<close>, overwritten and extended by those of \<^verbatim>\<open>b\<close>.\<close>

definition dict_or :: "('k \<times> 'v) list \<Rightarrow> ('k \<times> 'v) list \<Rightarrow> ('k \<times> 'v) list" where
  "dict_or a b = foldl (\<lambda>acc kv. AList.update (fst kv) (snd kv) acc) a b"

section \<open>The HTTP boundary\<close>

text \<open>
  What \<^verbatim>\<open>requests.request\<close> is called with, and the part of its answer the client reads:
  the status code, the headers, the body bytes, and what \<^verbatim>\<open>response.json()\<close> gives
  (\<open>None\<close> when it raises \<^verbatim>\<open>ValueError\<close> or \<^verbatim>\<open>JSONDecodeError\<close>).
\<close>

record http_request =
  req_method :: string
  req_url :: string
  req_headers :: "(string \<times> string) list"
  req_params :: pyval
  req_json :: pyval

record http_response =
  resp_status :: int
  resp_headers :: "(string \<times> string) list"
  resp_content :: string
  resp_json :: "pyval option"

text \<open>
  \<^verbatim>\<open>response.ok\<close> of the requests library: true unless \<^verbatim>\<open>raise_for_status()\<close> would
  raise, which it does for the status codes from 400 to 599.
\<close>

definition ok :: "http_response \<Rightarrow> bool" where
  "ok r = (\<not> (400 \<le> resp_status r \<and> resp_status r < 600))"

text \<open>
  Everything the client does to the outside, in the order it happens: a request sent, a
  warning logged, a record handed to the consumer of an iterator.
\<close>

datatype event = Sent http_request | Warning string | Yielded pyval

type_synonym world = "event list"

fun sent :: "world \<Rightarrow> http_request list" where
  "sent [] = []"
| "sent (Sent r # es) = r # sent es"
| "sent (e # es) = sent es"

fun yielded :: "world \<Rightarrow> pyval list" where
  "yielded [] = []"
| "yielded (Yielded v # es) = v # yielded es"
| "yielded (e # es) = yielded es"

fun warnings :: "world \<Rightarrow> string list" where
  "warnings [] = []"
| "warnings (Warning m # es) = m # warnings es"
| "warnings (e # es) = warnings es"

text \<open>
  The remote service: its answer to a request may depend on the requests it has received
  before. The network always answers; connection failures are outside the model.
\<close>

type_synonym network = "http_request list \<Rightarrow> http_request \<Rightarrow> http_response"

section \<open>client.py\<close>

record response =
  status_code :: int
  headers :: "(string \<times> string) list"
  message :: string
  data :: pyval

record client =
  client_domain :: string
  client_url :: string
  client_api_key :: string
  client_version :: string

definition BoardsOnFireClient :: "string \<Rightarrow> string \<Rightarrow> string \<Rightarrow> client" where
  "BoardsOnFireClient dname key ver =
     \<lparr>client_domain = dname,
      client_url = ''https://'' @ dname @ ''.boardsonfireapp.com/api/'' @ ver @ ''/'',
      client_api_key = key,
      client_version = ver\<rparr>"

definition bad_response_message :: "http_response \<Rightarrow> string" where
  "bad_response_message r =
     ''Bad response. '' @ [CHR 0x0A] @ '' Status Code: '' @ str_int (resp_status r) @
     [CHR 0x0A] @ ''  Message: '' @ bytes_repr (resp_content r)"

definition send_request ::
  "client \<Rightarrow> network \<Rightarrow> string \<Rightarrow> string \<Rightarrow> pyval \<Rightarrow> pyval \<Rightarrow> (string \<times> string) list \<Rightarrow>
   world \<Rightarrow> (error + response) \<times> world" where
  "send_request c net method endpoint params payload hdrs w =
     (let full_url = client_url c @ endpoint;
          base_header = [(''x-api-key'', client_api_key c)];
          hdrs = dict_or base_header hdrs;
          req = \<lparr>req_method = method, req_url = full_url, req_headers = hdrs,
                 req_params = params, req_json = payload\<rparr>;
          r = net (sent w) req;
          w = w @ [Sent req]
      in if ok r then
           (if method = ''DELETE'' then
              (Inr \<lparr>status_code = resp_status r, headers = resp_headers r,
                    message = [], data = PNone\<rparr>, w)
            else
              (case resp_json r of
                 None \<Rightarrow> (Inl (RestClientException ''Response does not contain valid json''), w)
               | Some d \<Rightarrow>
                   (Inr \<lparr>status_code = resp_status r, headers = resp_headers r,
                         message = [], data = d\<rparr>, w)))
         else if resp_status r = 429 then (Inl (RateLimitException ''Rate limit exceeded''), w)
         else if resp_status r = 404 then (Inl (NotFoundException ''Resource not found''), w)
         else (Inl (RestClientException (bad_response_message r)), w))"

definition client_get ::
  "client \<Rightarrow> network \<Rightarrow> string \<Rightarrow> pyval \<Rightarrow> pyval \<Rightarrow> world \<Rightarrow> (error + response) \<times> world" where
  "client_get c net endpoint params payload w =
     send_request c net ''GET'' endpoint params payload [] w"

definition client_post ::
  "client \<Rightarrow> network \<Rightarrow> string \<Rightarrow> pyval \<Rightarrow> pyval \<Rightarrow> world \<Rightarrow> (error + response) \<times> world" where
  "client_post c net endpoint params payload w =
     send_request c net ''POST'' endpoint params payload [] w"



section \<open>endpoints.py\<close>

definition MAX_PAGE_SIZE :: int where
  "MAX_PAGE_SIZE = 500"

subsection \<open>Validators\<close>

definition ValidateEntity_create :: "pyval \<Rightarrow> error + unit" where
  "ValidateEntity_create payload =
     (case has_keys [''organization_id''] payload of
        Inl e \<Rightarrow> Inl e
      | Inr b \<Rightarrow>
          if \<not> b then
            Inl (ValidationError ''organization_id is required to create an entity object'')
          else Inr ())"

text \<open>
  \<^verbatim>\<open>all(required <= set(row) for row in data)\<close>: the rows are looked at in order, up to
  the first one that lacks a key.
\<close>

fun all_rows_have :: "string list \<Rightarrow> pyval list \<Rightarrow> error + bool" where
  "all_rows_have ks [] = Inr True"
| "all_rows_have ks (row # rows) =
     (case has_keys ks row of
        Inl e \<Rightarrow> Inl e
      | Inr b \<Rightarrow> if b then all_rows_have ks rows else Inr False)"

definition ValidateEntity_upsert :: "pyval \<Rightarrow> error + unit" where
  "ValidateEntity_upsert payload =
     (case payload of
        PList rows \<Rightarrow>
          (case all_rows_have [''organization_id''] rows of
             Inl e \<Rightarrow> Inl e
           | Inr b \<Rightarrow>
               if \<not> b then
                 Inl (ValidationError ''organization_id is required to create an entity object'')
               else Inr ())
      | _ \<Rightarrow> Inl (ValidationError ''Data must be a list of dictionaries''))"

definition ValidateDataSource_create :: "pyval \<Rightarrow> error + unit" where
  "ValidateDataSource_create payload =
     (case has_keys [''organization_id'', ''timestamp''] payload of
        Inl e \<Rightarrow> Inl e
      | Inr b \<Rightarrow>
          if \<not> b then
            Inl (ValidationError
              ''organization_id and timestamp is required to create a datasource object'')
          else Inr ())"

definition ValidateDataSource_upsert :: "pyval \<Rightarrow> error + unit" where
  "ValidateDataSource_upsert payload =
     (case payload of
        PList rows \<Rightarrow>
          (case all_rows_have [''organization_id'', ''timestamp''] rows of
             Inl e \<Rightarrow> Inl e
           | Inr b \<Rightarrow>
               if \<not> b then
                 Inl (ValidationError
                   ''organization_id and timestamp is required to create a datasource object'')
               else Inr ())
      | _ \<Rightarrow> Inl (ValidationError ''Data must be a list of dictionaries''))"

subsection \<open>Shared pieces of the four collections\<close>

text \<open>
  The four \<^verbatim>\<open>list\<close> methods open with the same check of \<^verbatim>\<open>page_size\<close> against
  \<^verbatim>\<open>MAX_PAGE_SIZE\<close>; it gives the page size to use and logs the warning.
\<close>

definition max_page_size_warning :: string where
  "max_page_size_warning =
     ''The maximum page size is '' @ str_int MAX_PAGE_SIZE @ ''. Response is truncated. '' @
     [CHR 0x0A] @ ''Please consider using the list_all method for large datasets.''"

definition check_page_size :: "int \<Rightarrow> world \<Rightarrow> int \<times> world" where
  "check_page_size page_size w =
     (if page_size > MAX_PAGE_SIZE then (MAX_PAGE_SIZE, w @ [Warning max_page_size_warning])
      else (page_size, w))"

text \<open>\<^verbatim>\<open>return response.data\<close>, after a transport call that may have raised.\<close>

definition response_data :: "(error + response) \<times> world \<Rightarrow> (error + pyval) \<times> world" where
  "response_data x =
     (case x of (Inl e, w) \<Rightarrow> (Inl e, w) | (Inr r, w) \<Rightarrow> (Inr (data r), w))"

text \<open>\<^verbatim>\<open>limit and yield_count >= limit\<close>: a limit of \<^verbatim>\<open>None\<close> or \<^verbatim>\<open>0\<close> is falsy.\<close>

definition limit_reached :: "int option \<Rightarrow> int \<Rightarrow> bool" where
  "limit_reached limit yield_count =
     (case limit of None \<Rightarrow> False | Some l \<Rightarrow> l \<noteq> 0 \<and> yield_count \<ge> l)"

text \<open>\<^verbatim>\<open>min(100, limit if limit else 100)\<close>.\<close>

definition initial_page_size :: "int option \<Rightarrow> int" where
  "initial_page_size limit =
     min 100 (case limit of None \<Rightarrow> 100 | Some l \<Rightarrow> if l \<noteq> 0 then l else 100)"

text \<open>
  The inner \<^verbatim>\<open>for\<close> loop of \<^verbatim>\<open>list_all\<close> over one batch: the records it yields, the new
  \<^verbatim>\<open>yield_count\<close>, and whether it left through the limit check (\<^verbatim>\<open>trigger = False\<close>,
  \<^verbatim>\<open>over_limit = True\<close>).
\<close>

fun emit :: "int option \<Rightarrow> int \<Rightarrow> pyval list \<Rightarrow> pyval list \<times> int \<times> bool" where
  "emit limit yield_count [] = ([], yield_count, False)"
| "emit limit yield_count (record # rest) =
     (if limit_reached limit (yield_count + 1) then ([record], yield_count + 1, True)
      else (case emit limit (yield_count + 1) rest of
              (ys, n, over_limit) \<Rightarrow> (record # ys, n, over_limit)))"

text \<open>
  The \<^verbatim>\<open>while\<close> loop of \<^verbatim>\<open>list_all\<close>, consumed to its end. The four methods differ only
  in the transport call, here \<open>fetch page_size page\<close>. The result is \<open>None\<close> when the loop never
  ends; otherwise the exception that ended the iteration, if any, and the world after it.
  \<^verbatim>\<open>len(response.data)\<close> is the number of items the \<^verbatim>\<open>for\<close> loop has iterated over.
\<close>

partial_function (option) paginate ::
  "(int \<Rightarrow> int \<Rightarrow> world \<Rightarrow> (error + response) \<times> world) \<Rightarrow> int option \<Rightarrow> int \<Rightarrow> int \<Rightarrow> int \<Rightarrow>
   world \<Rightarrow> (error option \<times> world) option" where
  "paginate fetch limit page_size page yield_count w =
     (case fetch page_size page w of
        (Inl e, w1) \<Rightarrow> Some (Some e, w1)
      | (Inr r, w1) \<Rightarrow>
          (case py_iter (data r) of
             Inl e \<Rightarrow> Some (Some e, w1)
           | Inr records \<Rightarrow>
               (case emit limit yield_count records of
                  (ys, yield_count', over_limit) \<Rightarrow>
                    if \<not> truthy (data r) \<or> int (length records) < page_size then
                      Some (None, w1 @ map Yielded ys)
                    else if over_limit then Some (None, w1 @ map Yielded ys)
                    else paginate fetch limit page_size (page + 1) yield_count'
                           (w1 @ map Yielded ys))))"

declare paginate.simps [code]

subsection \<open>Organizations\<close>


definition organizations_list_all ::
  "client \<Rightarrow> network \<Rightarrow> int option \<Rightarrow> pyval \<Rightarrow> pyval \<Rightarrow> world \<Rightarrow> (error option \<times> world) option" where
  "organizations_list_all c net limit order_by direction w =
     paginate
       (\<lambda>page_size page.
          client_get c net ''organizations''
            (PDict [(''page_size'', PInt page_size), (''page'', PInt page),
                    (''order'', order_by), (''direction'', direction)])
            PNone)
       limit (initial_page_size limit) 1 0 w"


subsection \<open>Users\<close>


definition users_list_all ::
  "client \<Rightarrow> network \<Rightarrow> int option \<Rightarrow> pyval \<Rightarrow> pyval \<Rightarrow> world \<Rightarrow> (error option \<times> world) option" where
  "users_list_all c net limit order_by direction w =
     paginate
       (\<lambda>page_size page.
          client_get c net ''users''
            (PDict [(''page_size'', PInt page_size), (''page'', PInt page),
                    (''order'', order_by), (''direction'', direction)])
            PNone)
       limit (initial_page_size limit) 1 0 w"


subsection \<open>Entities\<close>

text \<open>
  \<^verbatim>\<open>Entities.list\<close> and \<^verbatim>\<open>Entities.list_all\<close> pass their dictionary as \<^verbatim>\<open>params=\<close> (the
  query string); \<^verbatim>\<open>DataSources.list\<close> and \<^verbatim>\<open>DataSources.list_all\<close> pass theirs as
  \<^verbatim>\<open>data=\<close> (the JSON body).
\<close>

definition entities_list ::
  "client \<Rightarrow> network \<Rightarrow> string \<Rightarrow> string list \<Rightarrow> int \<Rightarrow> int \<Rightarrow> pyval \<Rightarrow> pyval \<Rightarrow> pyval \<Rightarrow> world \<Rightarrow>
   (error + pyval) \<times> world" where
  "entities_list c net name organizations page_size page ordr grp filt w =
     (case check_page_size page_size w of
        (page_size, w) \<Rightarrow>
          response_data
            (client_post c net (''entities/'' @ name @ ''/entityobjects/list'')
               (PDict [(''page_size'', PInt page_size), (''page'', PInt page),
                       (''order'', ordr), (''group'', grp), (''filter'', filt),
                       (''target_organization_ids'', PStr (join '','' organizations))]) PNone w))"

definition entities_list_all ::
  "client \<Rightarrow> network \<Rightarrow> string \<Rightarrow> int option \<Rightarrow> string list \<Rightarrow> pyval \<Rightarrow> pyval \<Rightarrow> pyval \<Rightarrow> world \<Rightarrow>
   (error option \<times> world) option" where
  "entities_list_all c net name limit organizations ordr grp filt w =
     paginate
       (\<lambda>page_size page.
          client_post c net (''entities/'' @ name @ ''/entityobjects/list'')
            (PDict [(''page_size'', PInt page_size), (''page'', PInt page),
                    (''order'', ordr), (''group'', grp), (''filter'', filt),
                    (''target_organization_ids'', PStr (join '','' organizations))]) PNone)
       limit (initial_page_size limit) 1 0 w"



definition entities_create ::
  "client \<Rightarrow> network \<Rightarrow> string \<Rightarrow> pyval \<Rightarrow> world \<Rightarrow> (error + pyval) \<times> world" where
  "entities_create c net name payload w =
     (case ValidateEntity_create payload of
        Inl e \<Rightarrow> (Inl e, w)
      | Inr u \<Rightarrow>
          response_data (client_post c net (''entities/'' @ name @ ''/entityobjects'') PNone payload w))"

definition entities_upsert ::
  "client \<Rightarrow> network \<Rightarrow> string \<Rightarrow> pyval \<Rightarrow> bool \<Rightarrow> world \<Rightarrow> (error + pyval) \<times> world" where
  "entities_upsert c net name payload truncate_flag w =
     (case ValidateEntity_upsert payload of
        Inl e \<Rightarrow> (Inl e, w)
      | Inr u \<Rightarrow>
          response_data
            (client_post c net (''entities/'' @ name @ ''/entityobjects/import'') PNone
               (PDict [(''entity_objects'', payload), (''delete_others'', PBool truncate_flag)]) w))"


subsection \<open>DataSources\<close>

definition datasources_list ::
  "client \<Rightarrow> network \<Rightarrow> string \<Rightarrow> string list \<Rightarrow> int \<Rightarrow> int \<Rightarrow> pyval \<Rightarrow> pyval \<Rightarrow> pyval \<Rightarrow> world \<Rightarrow>
   (error + pyval) \<times> world" where
  "datasources_list c net name organizations page_size page ordr grp filt w =
     (case check_page_size page_size w of
        (page_size, w) \<Rightarrow>
          response_data
            (client_post c net (''datasources/'' @ name @ ''/dataobjects/list'')
               PNone
               (PDict [(''page_size'', PInt page_size), (''page'', PInt page),
                       (''order'', ordr), (''group'', grp), (''filter'', filt),
                       (''target_organization_ids'', PStr (join '','' organizations))]) w))"

definition datasources_list_all ::
  "client \<Rightarrow> network \<Rightarrow> string \<Rightarrow> int option \<Rightarrow> string list \<Rightarrow> pyval \<Rightarrow> pyval \<Rightarrow> pyval \<Rightarrow> world \<Rightarrow>
   (error option \<times> world) option" where
  "datasources_list_all c net name limit organizations ordr grp filt w =
     paginate
       (\<lambda>page_size page.
          client_post c net (''datasources/'' @ name @ ''/dataobjects/list'')
            PNone
            (PDict [(''page_size'', PInt page_size), (''page'', PInt page),
                    (''order'', ordr), (''group'', grp), (''filter'', filt),
                    (''target_organization_ids'', PStr (join '','' organizations))]))
       limit (initial_page_size limit) 1 0 w"



definition datasources_create ::
  "client \<Rightarrow> network \<Rightarrow> string \<Rightarrow> pyval \<Rightarrow> world \<Rightarrow> (error + pyval) \<times> world" where
  "datasources_create c net name payload w =
     (case ValidateDataSource_create payload of
        Inl e \<Rightarrow> (Inl e, w)
      | Inr u \<Rightarrow>
          response_data (client_post c net (''datasources/'' @ name @ ''/dataobjects'') PNone payload w))"

definition datasources_upsert ::
  "client \<Rightarrow> network \<Rightarrow> string \<Rightarrow> pyval \<Rightarrow> world \<Rightarrow> (error + pyval) \<times> world" where
  "datasources_upsert c net name payload w =
     (case ValidateDataSource_upsert payload of
        Inl e \<Rightarrow> (Inl e, w)
      | Inr u \<Rightarrow>
          response_data
            (client_post c net (''datasources/'' @ name @ ''/dataobjects/import'') PNone
               payload w))"


section \<open>Test doubles\<close>

text \<open>
  A service that answers every request with status 200 and a JSON list: the \<open>i\<close>-th request
  it receives gets the \<open>i\<close>-th batch of the script, and every request after the script's end
  gets the empty list.
\<close>

definition ok_json :: "pyval \<Rightarrow> http_response" where
  "ok_json d = \<lparr>resp_status = 200, resp_headers = [], resp_content = [], resp_json = Some d\<rparr>"

definition script_net :: "pyval list list \<Rightarrow> network" where
  "script_net batches hist req =
     ok_json (PList (if length hist < length batches then batches ! length hist else []))"

text \<open>A service that gives the same answer to every request.\<close>

definition const_net :: "http_response \<Rightarrow> network" where
  "const_net r hist req = r"

section \<open>Notions used to state the properties\<close>

text \<open>The request \<open>send_request\<close> builds when the caller adds no headers of its own.\<close>

definition api_request :: "client \<Rightarrow> string \<Rightarrow> string \<Rightarrow> pyval \<Rightarrow> pyval \<Rightarrow> http_request" where
  "api_request c method endpoint params payload =
     \<lparr>req_method = method, req_url = client_url c @ endpoint,
      req_headers = [(''x-api-key'', client_api_key c)],
      req_params = params, req_json = payload\<rparr>"

text \<open>
  The four iterators under one name, so that a property of all of them is stated once: a
  collection together with the arguments of its \<^verbatim>\<open>list_all\<close> other than the limit.
\<close>

datatype collection =
    Organizations pyval pyval
  | Users pyval pyval
  | Entities string "string list" pyval pyval pyval
  | DataSources string "string list" pyval pyval pyval

fun list_all_of ::
  "client \<Rightarrow> network \<Rightarrow> collection \<Rightarrow> int option \<Rightarrow> world \<Rightarrow> (error option \<times> world) option" where
  "list_all_of c net (Organizations order_by direction) limit w =
     organizations_list_all c net limit order_by direction w"
| "list_all_of c net (Users order_by direction) limit w =
     users_list_all c net limit order_by direction w"
| "list_all_of c net (Entities name organizations ordr grp filt) limit w =
     entities_list_all c net name limit organizations ordr grp filt w"
| "list_all_of c net (DataSources name organizations ordr grp filt) limit w =
     datasources_list_all c net name limit organizations ordr grp filt w"

text \<open>The list request of a collection for a page size and a page number.\<close>

fun page_request :: "client \<Rightarrow> collection \<Rightarrow> int \<Rightarrow> int \<Rightarrow> http_request" where
  "page_request c (Organizations order_by direction) page_size page =
     api_request c ''GET'' ''organizations''
       (PDict [(''page_size'', PInt page_size), (''page'', PInt page),
               (''order'', order_by), (''direction'', direction)])
       PNone"
| "page_request c (Users order_by direction) page_size page =
     api_request c ''GET'' ''users''
       (PDict [(''page_size'', PInt page_size), (''page'', PInt page),
               (''order'', order_by), (''direction'', direction)])
       PNone"
| "page_request c (Entities name organizations ordr grp filt) page_size page =
     api_request c ''POST'' (''entities/'' @ name @ ''/entityobjects/list'')
       (PDict [(''page_size'', PInt page_size), (''page'', PInt page),
               (''order'', ordr), (''group'', grp), (''filter'', filt),
               (''target_organization_ids'', PStr (join '','' organizations))])
       PNone"
| "page_request c (DataSources name organizations ordr grp filt) page_size page =
     api_request c ''POST'' (''datasources/'' @ name @ ''/dataobjects/list'')
       PNone
       (PDict [(''page_size'', PInt page_size), (''page'', PInt page),
               (''order'', ordr), (''group'', grp), (''filter'', filt),
               (''target_organization_ids'', PStr (join '','' organizations))])"

text \<open>
  What an iteration against a scripted service does, by recursion on the batches still to
  come: the events of the page at hand, then those of the pages after it.
\<close>

fun script_events ::
  "(int \<Rightarrow> http_request) \<Rightarrow> int option \<Rightarrow> int \<Rightarrow> int \<Rightarrow> int \<Rightarrow> pyval list list \<Rightarrow> event list" where
  "script_events mk limit page_size page yield_count [] = [Sent (mk page)]"
| "script_events mk limit page_size page yield_count (b # bs) =
     Sent (mk page) # map Yielded (fst (emit limit yield_count b)) @
     (if b = [] \<or> int (length b) < page_size \<or> snd (snd (emit limit yield_count b)) then []
      else script_events mk limit page_size (page + 1) (fst (snd (emit limit yield_count b))) bs)"

text \<open>
  The number of leading batches of a script that are neither empty nor shorter than the
  page size.
\<close>

definition full_pages :: "int \<Rightarrow> pyval list list \<Rightarrow> nat" where
  "full_pages page_size bs =
     length (takeWhile (\<lambda>b. b \<noteq> [] \<and> \<not> int (length b) < page_size) bs)"

section \<open>Lemmas\<close>

lemma sent_append [simp]: "sent (a @ b) = sent a @ sent b"
  by (induction a rule: sent.induct) auto

lemma yielded_append [simp]: "yielded (a @ b) = yielded a @ yielded b"
  by (induction a rule: yielded.induct) auto

lemma warnings_append [simp]: "warnings (a @ b) = warnings a @ warnings b"
  by (induction a rule: warnings.induct) auto

lemma sent_map_Yielded [simp]: "sent (map Yielded ys) = []"
  by (induction ys) auto

lemma yielded_map_Yielded [simp]: "yielded (map Yielded ys) = ys"
  by (induction ys) auto

lemma warnings_map_Yielded [simp]: "warnings (map Yielded ys) = []"
  by (induction ys) auto

lemma dict_or_Nil [simp]: "dict_or a [] = a"
  by (simp add: dict_or_def)

lemma snd_send_request:
  "snd (send_request c net m ep prm bdy [] w) = w @ [Sent (api_request c m ep prm bdy)]"
  by (simp add: send_request_def api_request_def Let_def split: option.splits)

lemma ok_ok_json [simp]: "ok (ok_json d)"
  by (simp add: ok_def ok_json_def)

lemma send_request_script:
  "m \<noteq> ''DELETE'' \<Longrightarrow>
   send_request c (script_net bs) m ep prm bdy [] w =
     (Inr \<lparr>status_code = 200, headers = [], message = [],
           data = PList (if length (sent w) < length bs then bs ! length (sent w) else [])\<rparr>,
      w @ [Sent (api_request c m ep prm bdy)])"
  by (simp add: send_request_def api_request_def Let_def script_net_def ok_json_def ok_def)

lemma paginate_script:
  assumes m: "m \<noteq> ''DELETE''"
  shows "paginate (\<lambda>ps p. send_request c (script_net bs) m ep (prm ps p) (bdy ps p) [])
           limit page_size page yield_count w =
         Some (None, w @ script_events (\<lambda>p. api_request c m ep (prm page_size p) (bdy page_size p))
                 limit page_size page yield_count (drop (length (sent w)) bs))"
proof (induction "length bs - length (sent w)" arbitrary: w page yield_count)
  case 0
  then have "drop (length (sent w)) bs = []" by simp
  with 0 m show ?case
    by (subst paginate.simps) (simp add: send_request_script)
next
  case (Suc n)
  then have lt: "length (sent w) < length bs" by simp
  then have d: "drop (length (sent w)) bs = bs ! length (sent w) # drop (Suc (length (sent w))) bs"
    by (simp add: Cons_nth_drop_Suc)
  show ?case
    apply (subst paginate.simps)
    apply (simp add: send_request_script m lt d split: prod.splits)
    apply (intro conjI impI allI)
    apply (subst Suc(1))
    using Suc(2) apply simp
    apply simp
    done
qed

lemma emit_unlimited:
  "limit = None \<or> limit = Some 0 \<Longrightarrow> emit limit cnt b = (b, cnt + int (length b), False)"
  by (induction b arbitrary: cnt) (auto simp: limit_reached_def)

lemma emit_within:
  "cnt < l \<Longrightarrow> l \<noteq> 0 \<Longrightarrow>
   emit (Some l) cnt b =
     (take (nat (l - cnt)) b, cnt + int (min (length b) (nat (l - cnt))), l - cnt \<le> int (length b))"
proof (induction b arbitrary: cnt)
  case Nil
  then show ?case by simp
next
  case (Cons x xs)
  show ?case
  proof (cases "cnt + 1 < l")
    case True
    then have n: "nat (l - cnt) = Suc (nat (l - (cnt + 1)))" by simp
    from True have "\<not> limit_reached (Some l) (cnt + 1)" by (simp add: limit_reached_def)
    with Cons.IH [OF True Cons.prems(2)] True show ?thesis
      by (simp only: emit.simps n) auto
  next
    case False
    with Cons.prems have l: "l = cnt + 1" by simp
    with Cons.prems show ?thesis by (simp add: limit_reached_def)
  qed
qed

lemma emit_prefix: "prefix (fst (emit limit cnt b)) b"
proof (induction b arbitrary: cnt)
  case Nil
  then show ?case by simp
next
  case (Cons x xs)
  from Cons [of "cnt + 1"] show ?case by (auto split: prod.splits)
qed

lemma emit_all: "\<not> snd (snd (emit limit cnt b)) \<Longrightarrow> fst (emit limit cnt b) = b"
proof (induction b arbitrary: cnt)
  case Nil
  then show ?case by simp
next
  case (Cons x xs)
  from Cons.prems Cons.IH [of "cnt + 1"] show ?case
    by (auto split: prod.splits if_splits)
qed

lemma sent_script_events:
  "sent (script_events mk limit ps page cnt bs) =
   map (\<lambda>i. mk (page + int i)) [0..<length (sent (script_events mk limit ps page cnt bs))]"
proof (induction bs arbitrary: page cnt)
  case Nil
  then show ?case by simp
next
  case (Cons b bs)
  let ?stop = "b = [] \<or> int (length b) < ps \<or> snd (snd (emit limit cnt b))"
  show ?case
  proof (cases ?stop)
    case True
    then show ?thesis by auto
  next
    case False
    let ?E = "script_events mk limit ps (page + 1) (fst (snd (emit limit cnt b))) bs"
    have "sent ?E = map (\<lambda>i. mk (page + 1 + int i)) [0..<length (sent ?E)]"
      by (rule Cons.IH)
    with False show ?thesis
      by (simp add: map_upt_Suc del: upt_Suc) (simp add: add.commute add.left_commute)
  qed
qed

lemma length_sent_script_events:
  "1 \<le> length (sent (script_events mk limit ps page cnt bs)) \<and>
   length (sent (script_events mk limit ps page cnt bs)) \<le> length bs + 1"
  by (induction bs arbitrary: page cnt) auto

lemma yielded_script_events_unlimited:
  "limit = None \<or> limit = Some 0 \<Longrightarrow>
   yielded (script_events mk limit ps page cnt bs) =
   concat (take (length (sent (script_events mk limit ps page cnt bs))) bs)"
  by (induction bs arbitrary: page cnt) (auto simp: emit_unlimited)

lemma yielded_script_events_limit:
  "cnt < l \<Longrightarrow> l \<noteq> 0 \<Longrightarrow>
   yielded (script_events mk (Some l) ps page cnt bs) =
   take (nat (l - cnt))
     (concat (take (length (sent (script_events mk (Some l) ps page cnt bs))) bs))"
proof (induction bs arbitrary: page cnt)
  case Nil
  then show ?case by simp
next
  case (Cons b bs)
  note e = emit_within [OF Cons.prems, of b]
  show ?case
  proof (cases "b = [] \<or> int (length b) < ps \<or> l - cnt \<le> int (length b)")
    case True
    then show ?thesis by (auto simp: e)
  next
    case False
    then have lt: "cnt + int (length b) < l" by simp
    then have m: "min (length b) (nat (l - cnt)) = length b" by simp
    have n: "nat (l - cnt) - length b = nat (l - (cnt + int (length b)))" by simp
    from False lt show ?thesis
      by (simp add: e m Cons.IH [OF lt Cons.prems(2)] n)
  qed
qed

lemma script_events_prefix:
  "prefix (script_events mk limit ps page cnt bs)
     (concat (map (\<lambda>i. Sent (mk (page + int i)) # map Yielded ((bs @ [[]]) ! i))
        [0..<length (sent (script_events mk limit ps page cnt bs))]))"
proof (induction bs arbitrary: page cnt)
  case Nil
  then show ?case by simp
next
  case (Cons b bs)
  let ?stop = "b = [] \<or> int (length b) < ps \<or> snd (snd (emit limit cnt b))"
  show ?case
  proof (cases ?stop)
    case True
    then show ?thesis
      using emit_prefix [of limit cnt b] by (auto simp: map_mono_prefix)
  next
    case False
    then have all: "fst (emit limit cnt b) = b" by (simp add: emit_all)
    let ?E = "script_events mk limit ps (page + 1) (fst (snd (emit limit cnt b))) bs"
    have "prefix ?E (concat (map (\<lambda>i. Sent (mk (page + 1 + int i)) # map Yielded ((bs @ [[]]) ! i))
        [0..<length (sent ?E)]))"
      by (rule Cons.IH)
    with False all show ?thesis
      by (simp add: map_upt_Suc del: upt_Suc) (simp add: add.commute add.left_commute)
  qed
qed

lemma script_events_limit_last:
  "cnt < l \<Longrightarrow> l \<noteq> 0 \<Longrightarrow>
   int (length (yielded (script_events mk (Some l) ps page cnt bs))) = l - cnt \<Longrightarrow>
   \<exists>E r. script_events mk (Some l) ps page cnt bs = E @ [Yielded r]"
proof (induction bs arbitrary: page cnt)
  case Nil
  then show ?case by simp
next
  case (Cons b bs)
  note e = emit_within [OF Cons.prems(1,2), of b]
  show ?case
  proof (cases "l - cnt \<le> int (length b)")
    case True
    with Cons.prems(1) have "take (nat (l - cnt)) b \<noteq> []" by auto
    then obtain ys r where "take (nat (l - cnt)) b = ys @ [r]"
      by (metis rev_exhaust)
    with True show ?thesis by (simp add: e)
  next
    case False
    then have lt: "cnt + int (length b) < l" by simp
    then have m: "min (length b) (nat (l - cnt)) = length b" by simp
    show ?thesis
    proof (cases "b = [] \<or> int (length b) < ps")
      case True
      with False Cons.prems(3) show ?thesis by (auto simp: e)
    next
      case stop: False
      from Cons.prems(3) False stop
      have "int (length (yielded (script_events mk (Some l) ps (page + 1) (cnt + int (length b)) bs)))
            = l - (cnt + int (length b))"
        by (simp add: e m)
      from Cons.IH [OF lt Cons.prems(2) this]
      obtain E r where "script_events mk (Some l) ps (page + 1) (cnt + int (length b)) bs = E @ [Yielded r]"
        by blast
      with False stop show ?thesis by (simp add: e m)
    qed
  qed
qed

lemma last_Yielded: "E = E' @ [Yielded r] \<Longrightarrow> E = pre @ post \<Longrightarrow> post \<noteq> [] \<Longrightarrow> yielded post \<noteq> []"
proof -
  assume a: "E = E' @ [Yielded r]" "E = pre @ post" "post \<noteq> []"
  then obtain p where "post = p @ [Yielded r]"
    by (metis append_butlast_last_id last_appendR snoc_eq_iff_butlast)
  then show ?thesis by simp
qed

lemma limit_stops:
  assumes le: "length (yielded E) \<le> n"
    and fin: "length (yielded E) = n \<Longrightarrow> \<exists>E' r. E = E' @ [Yielded r]"
    and split: "E = pre @ Yielded r # post"
    and cnt: "length (yielded pre) + 1 = n"
  shows "post = []"
proof (rule ccontr)
  assume ne: "post \<noteq> []"
  from split have y: "yielded E = yielded pre @ r # yielded post" by simp
  with le cnt have "length (yielded E) = n" by simp
  from fin [OF this] obtain E' r' where E': "E = E' @ [Yielded r']" by blast
  from split have "E = (pre @ [Yielded r]) @ post" by simp
  from last_Yielded [OF E' this ne] have "yielded post \<noteq> []" .
  with y le cnt show False by (cases "yielded post") auto
qed

lemma client_get_fun:
  "client_get c net ep prm bdy = send_request c net ''GET'' ep prm bdy []"
  by (rule ext) (simp add: client_get_def)

lemma client_post_fun:
  "client_post c net ep prm bdy = send_request c net ''POST'' ep prm bdy []"
  by (rule ext) (simp add: client_post_def)

lemma page_request_fun:
  "page_request c (Organizations order_by direction) ps =
     (\<lambda>p. api_request c ''GET'' ''organizations''
        (PDict [(''page_size'', PInt ps), (''page'', PInt p),
                (''order'', order_by), (''direction'', direction)]) PNone)"
  "page_request c (Users order_by direction) ps =
     (\<lambda>p. api_request c ''GET'' ''users''
        (PDict [(''page_size'', PInt ps), (''page'', PInt p),
                (''order'', order_by), (''direction'', direction)]) PNone)"
  "page_request c (Entities name organizations ordr grp filt) ps =
     (\<lambda>p. api_request c ''POST'' (''entities/'' @ name @ ''/entityobjects/list'')
        (PDict [(''page_size'', PInt ps), (''page'', PInt p),
                (''order'', ordr), (''group'', grp), (''filter'', filt),
                (''target_organization_ids'', PStr (join '','' organizations))]) PNone)"
  "page_request c (DataSources name organizations ordr grp filt) ps =
     (\<lambda>p. api_request c ''POST'' (''datasources/'' @ name @ ''/dataobjects/list'') PNone
        (PDict [(''page_size'', PInt ps), (''page'', PInt p),
                (''order'', ordr), (''group'', grp), (''filter'', filt),
                (''target_organization_ids'', PStr (join '','' organizations))]))"
  by (rule ext, simp)+

lemma list_all_of_script:
  "list_all_of c (script_net bs) coll limit [] =
   Some (None, script_events (page_request c coll (initial_page_size limit)) limit
                 (initial_page_size limit) 1 0 bs)"
proof (cases coll)
  case (Organizations order_by direction)
  then show ?thesis
    using paginate_script [of "''GET''" c bs "''organizations''"
        "\<lambda>ps p. PDict [(''page_size'', PInt ps), (''page'', PInt p),
                        (''order'', order_by), (''direction'', direction)]"
        "\<lambda>ps p. PNone" limit "initial_page_size limit" 1 0 "[]"]
    by (simp add: organizations_list_all_def client_get_fun page_request_fun)
next
  case (Users order_by direction)
  then show ?thesis
    using paginate_script [of "''GET''" c bs "''users''"
        "\<lambda>ps p. PDict [(''page_size'', PInt ps), (''page'', PInt p),
                        (''order'', order_by), (''direction'', direction)]"
        "\<lambda>ps p. PNone" limit "initial_page_size limit" 1 0 "[]"]
    by (simp add: users_list_all_def client_get_fun page_request_fun)
next
  case (Entities name organizations ordr grp filt)
  then show ?thesis
    using paginate_script [of "''POST''" c bs "''entities/'' @ name @ ''/entityobjects/list''"
        "\<lambda>ps p. PDict [(''page_size'', PInt ps), (''page'', PInt p),
                        (''order'', ordr), (''group'', grp), (''filter'', filt),
                        (''target_organization_ids'', PStr (join '','' organizations))]"
        "\<lambda>ps p. PNone" limit "initial_page_size limit" 1 0 "[]"]
    by (simp add: entities_list_all_def client_post_fun page_request_fun)
next
  case (DataSources name organizations ordr grp filt)
  then show ?thesis
    using paginate_script [of "''POST''" c bs "''datasources/'' @ name @ ''/dataobjects/list''"
        "\<lambda>ps p. PNone"
        "\<lambda>ps p. PDict [(''page_size'', PInt ps), (''page'', PInt p),
                        (''order'', ordr), (''group'', grp), (''filter'', filt),
                        (''target_organization_ids'', PStr (join '','' organizations))]"
        limit "initial_page_size limit" 1 0 "[]"]
    by (simp add: datasources_list_all_def client_post_fun page_request_fun)
qed

lemma emit_under:
  "limit = None \<or> limit = Some 0 \<or> (\<exists>l. limit = Some l \<and> cnt + int (length b) < l) \<Longrightarrow>
   emit limit cnt b = (b, cnt + int (length b), False)"
proof (cases "limit = None \<or> limit = Some 0")
  case True
  then show ?thesis by (rule emit_unlimited)
next
  case False
  assume "limit = None \<or> limit = Some 0 \<or> (\<exists>l. limit = Some l \<and> cnt + int (length b) < l)"
  with False obtain l where l: "limit = Some l" "cnt + int (length b) < l" "l \<noteq> 0" by auto
  then have "cnt < l" by simp
  from emit_within [OF this l(3), of b] l show ?thesis by simp
qed

lemma sent_script_events_uncut:
  "limit = None \<or> limit = Some 0 \<or>
     (\<exists>l. limit = Some l \<and> cnt + int (length (concat (take (Suc (full_pages ps bs)) bs))) < l) \<Longrightarrow>
   length (sent (script_events mk limit ps page cnt bs)) = Suc (full_pages ps bs)"
proof (induction bs arbitrary: page cnt)
  case Nil
  then show ?case by (simp add: full_pages_def)
next
  case (Cons b bs)
  show ?case
  proof (cases "b = [] \<or> int (length b) < ps")
    case True
    then show ?thesis by (auto simp: full_pages_def)
  next
    case False
    then have k: "full_pages ps (b # bs) = Suc (full_pages ps bs)"
      by (simp add: full_pages_def)
    from Cons.prems have
      "limit = None \<or> limit = Some 0 \<or> (\<exists>l. limit = Some l \<and> cnt + int (length b) < l)"
      by (auto simp: k)
    then have e: "emit limit cnt b = (b, cnt + int (length b), False)" by (rule emit_under)
    from Cons.prems have "limit = None \<or> limit = Some 0 \<or>
       (\<exists>l. limit = Some l \<and>
          cnt + int (length b) + int (length (concat (take (Suc (full_pages ps bs)) bs))) < l)"
      by (auto simp: k)
    from Cons.IH [OF this] False show ?thesis by (simp add: e k)
  qed
qed

lemma full_pages_bounds:
  "(\<forall>i<full_pages ps bs. bs ! i \<noteq> [] \<and> ps \<le> int (length (bs ! i))) \<and>
   full_pages ps bs \<le> length bs \<and>
   (full_pages ps bs < length bs \<longrightarrow>
      bs ! full_pages ps bs = [] \<or> int (length (bs ! full_pages ps bs)) < ps)"
proof (intro conjI allI impI)
  let ?P = "\<lambda>b. b \<noteq> [] \<and> \<not> int (length b) < ps"
  show "full_pages ps bs \<le> length bs"
    by (simp add: full_pages_def length_takeWhile_le)
  show "bs ! i \<noteq> []" if "i < full_pages ps bs" for i
  proof -
    from that have "takeWhile ?P bs ! i \<in> set (takeWhile ?P bs)" 
      unfolding full_pages_def by (rule nth_mem)
    then have "?P (takeWhile ?P bs ! i)" by (rule set_takeWhileD [THEN conjunct2])
    with that show ?thesis by (simp add: full_pages_def takeWhile_nth)
  qed
  show "ps \<le> int (length (bs ! i))" if "i < full_pages ps bs" for i
  proof -
    from that have "takeWhile ?P bs ! i \<in> set (takeWhile ?P bs)" 
      unfolding full_pages_def by (rule nth_mem)
    then have "?P (takeWhile ?P bs ! i)" by (rule set_takeWhileD [THEN conjunct2])
    with that show ?thesis by (simp add: full_pages_def takeWhile_nth)
  qed
  show "bs ! full_pages ps bs = [] \<or> int (length (bs ! full_pages ps bs)) < ps"
    if "full_pages ps bs < length bs"
    using that nth_length_takeWhile [of ?P bs] by (auto simp: full_pages_def)
qed

lemma example_250:
  assumes "length b1 = 100" "length b2 = 100" "length b3 = 100" "length b4 = 40"
  shows "script_events mk (Some 250) 100 1 0 [b1, b2, b3, b4] =
     Sent (mk 1) # map Yielded b1 @ Sent (mk 2) # map Yielded b2 @
     Sent (mk 3) # map Yielded (take 50 b3)"
proof -
  from assms have ne: "b1 \<noteq> []" "b2 \<noteq> []" "b3 \<noteq> []" by auto
  show ?thesis by (simp add: emit_within assms ne)
qed

lemma example_340:
  assumes "length b1 = 100" "length b2 = 100" "length b3 = 100" "length b4 = 40"
  shows "script_events mk None 100 1 0 [b1, b2, b3, b4] =
     Sent (mk 1) # map Yielded b1 @ Sent (mk 2) # map Yielded b2 @
     Sent (mk 3) # map Yielded b3 @ Sent (mk 4) # map Yielded b4"
proof -
  from assms have ne: "b1 \<noteq> []" "b2 \<noteq> []" "b3 \<noteq> []" by auto
  show ?thesis by (simp add: emit_unlimited assms ne)
qed

lemma emit_limit_zero: "emit (Some 0) cnt b = emit None cnt b"
  by (simp add: emit_unlimited)

lemma paginate_zero_to_none:
  assumes "paginate fetch (Some 0) ps page cnt w = Some y"
  shows "paginate fetch None ps page cnt w = Some y"
proof -
  have "limit = Some 0 \<longrightarrow> paginate fetch None ps page cnt w = Some y"
    if "paginate fetch limit ps page cnt w = Some y" for limit
  proof (rule paginate.raw_induct [where P = "\<lambda>fetch limit ps page cnt w y.
            limit = Some 0 \<longrightarrow> paginate fetch None ps page cnt w = Some y", OF _ that])
    fix pg fetch and limit :: "int option" and ps page cnt w y
    assume IH: "\<And>fetch (limit :: int option) ps page cnt w y. pg fetch limit ps page cnt w = Some y \<Longrightarrow>
        limit = Some 0 \<longrightarrow> paginate fetch None ps page cnt w = Some y"
    assume body: "(case fetch ps page w of (Inl e, w1) \<Rightarrow> Some (Some e, w1)
      | (Inr r, w1) \<Rightarrow>
          case py_iter (data r) of Inl e \<Rightarrow> Some (Some e, w1)
          | Inr records \<Rightarrow>
              case emit limit cnt records of
              (ys, yield_count', over_limit) \<Rightarrow>
                if \<not> truthy (data r) \<or> int (length records) < ps
                then Some (None, w1 @ map Yielded ys)
                else if over_limit then Some (None, w1 @ map Yielded ys)
                     else pg fetch limit ps (page + 1) yield_count' (w1 @ map Yielded ys)) =
     Some y"
    show "limit = Some 0 \<longrightarrow> paginate fetch None ps page cnt w = Some y"
    proof
      assume l: "limit = Some 0"
      show "paginate fetch None ps page cnt w = Some y"
        apply (subst paginate.simps)
        using body l
        by (auto simp: emit_limit_zero split: prod.splits sum.splits if_splits
            intro: IH [THEN mp])
    qed
  qed
  with assms show ?thesis by blast
qed

lemma paginate_none_to_zero:
  assumes "paginate fetch None ps page cnt w = Some y"
  shows "paginate fetch (Some 0) ps page cnt w = Some y"
proof -
  have "limit = None \<longrightarrow> paginate fetch (Some 0) ps page cnt w = Some y"
    if "paginate fetch limit ps page cnt w = Some y" for limit
  proof (rule paginate.raw_induct [where P = "\<lambda>fetch limit ps page cnt w y.
            limit = None \<longrightarrow> paginate fetch (Some 0) ps page cnt w = Some y", OF _ that])
    fix pg fetch and limit :: "int option" and ps page cnt w y
    assume IH: "\<And>fetch (limit :: int option) ps page cnt w y. pg fetch limit ps page cnt w = Some y \<Longrightarrow>
        limit = None \<longrightarrow> paginate fetch (Some 0) ps page cnt w = Some y"
    assume body: "(case fetch ps page w of (Inl e, w1) \<Rightarrow> Some (Some e, w1)
      | (Inr r, w1) \<Rightarrow>
          case py_iter (data r) of Inl e \<Rightarrow> Some (Some e, w1)
          | Inr records \<Rightarrow>
              case emit limit cnt records of
              (ys, yield_count', over_limit) \<Rightarrow>
                if \<not> truthy (data r) \<or> int (length records) < ps
                then Some (None, w1 @ map Yielded ys)
                else if over_limit then Some (None, w1 @ map Yielded ys)
                     else pg fetch limit ps (page + 1) yield_count' (w1 @ map Yielded ys)) =
     Some y"
    show "limit = None \<longrightarrow> paginate fetch (Some 0) ps page cnt w = Some y"
    proof
      assume l: "limit = None"
      show "paginate fetch (Some 0) ps page cnt w = Some y"
        apply (subst paginate.simps)
        using body l
        by (auto simp: emit_limit_zero split: prod.splits sum.splits if_splits
            intro: IH [THEN mp])
    qed
  qed
  with assms show ?thesis by blast
qed

lemma paginate_limit_zero:
  "paginate fetch (Some 0) ps page cnt w = paginate fetch None ps page cnt w"
proof (cases "paginate fetch (Some 0) ps page cnt w")
  case None
  show ?thesis
  proof (cases "paginate fetch None ps page cnt w")
    case n: None
    with None show ?thesis by simp
  next
    case (Some y)
    from paginate_none_to_zero [OF Some] None show ?thesis by simp
  qed
next
  case (Some y)
  from paginate_zero_to_none [OF Some] Some show ?thesis by simp
qed

lemma initial_page_size_zero: "initial_page_size (Some 0) = 100" "initial_page_size None = 100"
  by (simp_all add: initial_page_size_def)

lemma str_int_examples: "str_int 400 = ''400''" "str_int 429 = ''429''" "str_int (-7) = ''-7''"
  by (simp_all add: str_int_def)

lemma bytes_repr_examples: "bytes_repr ''bad input'' = ''b'' @ [CHR 0x27] @ ''bad input'' @ [CHR 0x27]"
  by (simp add: bytes_repr_def escape_byte_def Let_def)

lemma has_keys_PDict:
  "has_keys ks (PDict kvs) = Inr (list_all (\<lambda>k. k \<in> fst ` set kvs) ks)"
proof -
  have h: "list_all hashable (map (\<lambda>kv. PStr (fst kv)) kvs)"
    by (induction kvs) auto
  have "PStr k \<in> (\<lambda>kv. PStr (fst kv)) ` set kvs \<longleftrightarrow> k \<in> fst ` set kvs" for k
    by auto
  then show ?thesis
    by (simp add: has_keys_def py_set_def h)
qed

lemma all_rows_have_dicts:
  "all_rows_have ks (map PDict rows) =
     Inr (list_all (\<lambda>kvs. list_all (\<lambda>k. k \<in> fst ` set kvs) ks) rows)"
  by (induction rows) (simp_all add: has_keys_PDict)

lemma snd_response_data [simp]: "snd (response_data x) = snd x"
  by (cases x) (auto simp: response_data_def split: sum.splits)

lemma warnings_send_request [simp]:
  "warnings (snd (send_request c net m ep prm bdy hs w)) = warnings w"
  by (simp add: send_request_def Let_def split: option.splits)







lemma paginate_limit_general:
  assumes run: "paginate fetch limit ps page cnt w = Some y"
    and fetch: "\<And>ps p w. \<exists>evs. snd (fetch ps p w) = w @ evs \<and> yielded evs = []"
    and lim: "limit = Some l" "cnt < l" "l \<noteq> 0"
  shows "\<exists>ext. snd y = w @ ext \<and> int (length (yielded ext)) \<le> l - cnt \<and>
           (int (length (yielded ext)) = l - cnt \<longrightarrow> (\<exists>E' r. ext = E' @ [Yielded r]))"
proof -
  let ?F = "\<lambda>fetch :: int \<Rightarrow> int \<Rightarrow> world \<Rightarrow> (error + response) \<times> world.
      \<forall>ps p w. \<exists>evs. snd (fetch ps p w) = w @ evs \<and> yielded evs = []"
  let ?Q = "\<lambda>cnt w (y :: error option \<times> world).
      \<exists>ext. snd y = w @ ext \<and> int (length (yielded ext)) \<le> l - cnt \<and>
           (int (length (yielded ext)) = l - cnt \<longrightarrow> (\<exists>E' r. ext = E' @ [Yielded r]))"
  have "?F fetch \<longrightarrow> limit = Some l \<longrightarrow> cnt < l \<longrightarrow> ?Q cnt w y"
  proof (rule paginate.raw_induct [where P = "\<lambda>fetch limit ps page cnt w y.
            ?F fetch \<longrightarrow> limit = Some l \<longrightarrow> cnt < l \<longrightarrow> ?Q cnt w y", OF _ run])
    fix pg :: "(int \<Rightarrow> int \<Rightarrow> world \<Rightarrow> (error + response) \<times> world) \<Rightarrow> int option \<Rightarrow>
        int \<Rightarrow> int \<Rightarrow> int \<Rightarrow> world \<Rightarrow> (error option \<times> world) option"
      and fetch :: "int \<Rightarrow> int \<Rightarrow> world \<Rightarrow> (error + response) \<times> world"
      and limit :: "int option" and ps page cnt w y
    assume IH: "\<And>(fetch :: int \<Rightarrow> int \<Rightarrow> world \<Rightarrow> (error + response) \<times> world)
        (limit :: int option) ps page cnt w y.
        pg fetch limit ps page cnt w = Some y \<Longrightarrow>
        ?F fetch \<longrightarrow> limit = Some l \<longrightarrow> cnt < l \<longrightarrow> ?Q cnt w y"
    assume body: "(case fetch ps page w of (Inl e, w1) \<Rightarrow> Some (Some e, w1)
      | (Inr r, w1) \<Rightarrow>
          case py_iter (data r) of Inl e \<Rightarrow> Some (Some e, w1)
          | Inr records \<Rightarrow>
              case emit limit cnt records of
              (ys, yield_count', over_limit) \<Rightarrow>
                if \<not> truthy (data r) \<or> int (length records) < ps
                then Some (None, w1 @ map Yielded ys)
                else if over_limit then Some (None, w1 @ map Yielded ys)
                     else pg fetch limit ps (page + 1) yield_count' (w1 @ map Yielded ys)) =
     Some y"
    show "?F fetch \<longrightarrow> limit = Some l \<longrightarrow> cnt < l \<longrightarrow> ?Q cnt w y"
    proof (intro impI)
      assume F: "?F fetch" and l: "limit = Some l" and c: "cnt < l"
      obtain res w1 where fw: "fetch ps page w = (res, w1)" by (cases "fetch ps page w")
      with F obtain evs where evs: "w1 = w @ evs" "yielded evs = []"
        by (metis snd_conv)
      have early: "?Q cnt w (out, w1)" for out
        using evs c by (intro exI [of _ evs]) simp
      show "?Q cnt w y"
      proof (cases res)
        case (Inl e)
        with body fw early show ?thesis by auto
      next
        case (Inr r)
        show ?thesis
        proof (cases "py_iter (data r)")
          case (Inl e)
          with body fw Inr early show ?thesis by auto
        next
          case (Inr records)
          note e = emit_within [OF c lim(3), of records]
          let ?ys = "take (nat (l - cnt)) records"
          show ?thesis
          proof (cases "\<not> truthy (data r) \<or> int (length records) < ps \<or>
              l - cnt \<le> int (length records)")
            case True
            with body fw \<open>res = Inr r\<close> Inr l e
            have y: "y = (None, w1 @ map Yielded ?ys)" by (auto split: if_splits)
            have "(\<exists>E' r. evs @ map Yielded ?ys = E' @ [Yielded r])"
              if "int (length ?ys) = l - cnt"
            proof -
              from that c have "?ys \<noteq> []" by auto
              then obtain zs z where "?ys = zs @ [z]" by (metis rev_exhaust)
              then have "evs @ map Yielded ?ys = (evs @ map Yielded zs) @ [Yielded z]" by simp
              then show ?thesis by blast
            qed
            with y evs c show ?thesis
              by (intro exI [of _ "evs @ map Yielded ?ys"]) auto
          next
            case False
            then have lt: "cnt + int (length records) < l" by simp
            then have m: "min (length records) (nat (l - cnt)) = length records" by simp
            from lt have tk: "?ys = records" by simp
            from body fw \<open>res = Inr r\<close> Inr l e False
            have "pg fetch limit ps (page + 1) (cnt + int (length records))
                    (w1 @ map Yielded records) = Some y"
              by (simp add: m tk)
            from IH [OF this, THEN mp, OF F, THEN mp, OF l, THEN mp, OF lt]
            obtain ext where ext: "snd y = (w1 @ map Yielded records) @ ext"
              "int (length (yielded ext)) \<le> l - (cnt + int (length records))"
              "int (length (yielded ext)) = l - (cnt + int (length records)) \<longrightarrow>
                 (\<exists>E' r. ext = E' @ [Yielded r])"
              by blast
            have "\<exists>E' r. evs @ map Yielded records @ ext = E' @ [Yielded r]"
              if "int (length (yielded (evs @ map Yielded records @ ext))) = l - cnt"
            proof -
              from that evs have "int (length (yielded ext)) = l - (cnt + int (length records))"
                by simp
              with ext(3) obtain E' r where "ext = E' @ [Yielded r]" by blast
              then have "evs @ map Yielded records @ ext =
                  (evs @ map Yielded records @ E') @ [Yielded r]" by simp
              then show ?thesis by blast
            qed
            with ext evs show ?thesis
              by (intro exI [of _ "evs @ map Yielded records @ ext"]) auto
          qed
        qed
      qed
    qed
  qed
  with fetch lim show ?thesis by blast
qed

lemma list_all_of_limit_general:
  assumes run: "list_all_of c net coll (Some l) w = Some y" and pos: "0 < l"
  shows "\<exists>ext. snd y = w @ ext \<and> int (length (yielded ext)) \<le> l \<and>
           (int (length (yielded ext)) = l \<longrightarrow> (\<exists>E' r. ext = E' @ [Yielded r]))"
proof -
  have f: "\<exists>evs. snd (send_request c net m ep prm bdy [] w) = w @ evs \<and> yielded evs = []"
    for m ep prm bdy w
    by (simp add: snd_send_request)
  from pos have nz: "l \<noteq> 0" by simp
  have "\<exists>fetch. paginate fetch (Some l) (initial_page_size (Some l)) 1 0 w = Some y \<and>
      (\<forall>ps p w. \<exists>evs. snd (fetch ps p w) = w @ evs \<and> yielded evs = [])"
  proof (cases coll)
    case (Organizations order_by direction)
    with run f show ?thesis
      by (simp add: organizations_list_all_def client_get_fun) blast
  next
    case (Users order_by direction)
    with run f show ?thesis
      by (simp add: users_list_all_def client_get_fun) blast
  next
    case (Entities name organizations ordr grp filt)
    with run f show ?thesis
      by (simp add: entities_list_all_def client_post_fun) blast
  next
    case (DataSources name organizations ordr grp filt)
    with run f show ?thesis
      by (simp add: datasources_list_all_def client_post_fun) blast
  qed
  then obtain fetch where p: "paginate fetch (Some l) (initial_page_size (Some l)) 1 0 w = Some y"
    and g: "\<And>ps p w. \<exists>evs. snd (fetch ps p w) = w @ evs \<and> yielded evs = []"
    by blast
  from paginate_limit_general [OF p g refl pos nz] show ?thesis by simp
qed

lemma py_iter_empty: "py_iter d = Inr [] \<Longrightarrow> \<not> truthy d"
  by (cases d) auto

lemma emit_passed:
  "l \<noteq> 0 \<Longrightarrow> l \<le> cnt + 1 \<Longrightarrow>
   emit (Some l) cnt b = (take 1 b, cnt + int (min (length b) 1), b \<noteq> [])"
  by (cases b) (auto simp: limit_reached_def)

lemma paginate_limit_passed:
  assumes run: "paginate fetch (Some l) ps page cnt w = Some y"
    and fetch: "\<And>ps p w. \<exists>evs. snd (fetch ps p w) = w @ evs \<and> yielded evs = []"
    and lim: "l \<noteq> 0" "l \<le> cnt + 1"
  shows "\<exists>ext. snd y = w @ ext \<and> length (yielded ext) \<le> 1 \<and>
           (length (yielded ext) = 1 \<longrightarrow> (\<exists>E' r. ext = E' @ [Yielded r]))"
proof -
  obtain res w1 where fw: "fetch ps page w = (res, w1)" by (cases "fetch ps page w")
  with fetch [of ps page w] obtain evs where evs: "w1 = w @ evs" "yielded evs = []"
    by auto
  have early: "\<exists>ext. w1 = w @ ext \<and> length (yielded ext) \<le> 1 \<and>
           (length (yielded ext) = 1 \<longrightarrow> (\<exists>E' r. ext = E' @ [Yielded r]))"
    using evs by (intro exI [of _ evs]) simp
  show ?thesis
  proof (cases res)
    case (Inl e)
    with run fw early show ?thesis by (subst (asm) paginate.simps) auto
  next
    case (Inr r)
    show ?thesis
    proof (cases "py_iter (data r)")
      case (Inl e)
      with run fw Inr early show ?thesis by (subst (asm) paginate.simps) auto
    next
      case records: (Inr records)
      note e = emit_passed [OF lim, of records]
      show ?thesis
      proof (cases records)
        case Nil
        with records have "\<not> truthy (data r)" by (simp add: py_iter_empty)
        with run fw Inr records Nil early show ?thesis
          by (subst (asm) paginate.simps) (auto simp: e)
      next
        case (Cons x xs)
        from lim have lr: "limit_reached (Some l) (cnt + 1)" by (simp add: limit_reached_def)
        from Cons run fw Inr records have y: "snd y = w1 @ [Yielded x]"
          by (subst (asm) paginate.simps) (auto simp: lr split: if_splits)
        with evs show ?thesis
          by (intro exI [of _ "evs @ [Yielded x]"]) auto
      qed
    qed
  qed
qed

lemma list_all_of_paginate:
  assumes run: "list_all_of c net coll limit w = Some y"
  shows "\<exists>fetch. paginate fetch limit (initial_page_size limit) 1 0 w = Some y \<and>
      (\<forall>ps p w. \<exists>evs. snd (fetch ps p w) = w @ evs \<and> yielded evs = [])"
proof -
  have f: "\<exists>evs. snd (send_request c net m ep prm bdy [] w) = w @ evs \<and> yielded evs = []"
    for m ep prm bdy w
    by (simp add: snd_send_request)
  show ?thesis
  proof (cases coll)
    case (Organizations order_by direction)
    with run f show ?thesis
      by (simp add: organizations_list_all_def client_get_fun) blast
  next
    case (Users order_by direction)
    with run f show ?thesis
      by (simp add: users_list_all_def client_get_fun) blast
  next
    case (Entities name organizations ordr grp filt)
    with run f show ?thesis
      by (simp add: entities_list_all_def client_post_fun) blast
  next
    case (DataSources name organizations ordr grp filt)
    with run f show ?thesis
      by (simp add: datasources_list_all_def client_post_fun) blast
  qed
qed

lemma list_all_of_limit_passed:
  assumes run: "list_all_of c net coll (Some l) w = Some y" and neg: "l < 0"
  shows "\<exists>ext. snd y = w @ ext \<and> length (yielded ext) \<le> 1 \<and>
           (length (yielded ext) = 1 \<longrightarrow> (\<exists>E' r. ext = E' @ [Yielded r]))"
proof -
  from list_all_of_paginate [OF run]
  obtain fetch where p: "paginate fetch (Some l) (initial_page_size (Some l)) 1 0 w = Some y"
    and g: "\<And>ps p w. \<exists>evs. snd (fetch ps p w) = w @ evs \<and> yielded evs = []"
    by blast
  from neg have "l \<noteq> 0" "l \<le> 0 + 1" by simp_all
  from paginate_limit_passed [OF p g this] show ?thesis .
qed

lemma script_events_no_records:
  assumes "concat (take (Suc (full_pages ps bs)) bs) = []"
  shows "script_events mk limit ps page cnt bs = [Sent (mk page)] \<and> full_pages ps bs = 0"
proof (cases bs)
  case Nil
  then show ?thesis by (simp add: full_pages_def)
next
  case (Cons b bs')
  with assms have "b = []" by simp
  with Cons show ?thesis by (simp add: full_pages_def)
qed

lemma paginate_sent_general:
  assumes run: "paginate fetch limit ps page cnt w = Some y"
    and fetch: "\<And>p w. snd (fetch ps p w) = w @ [Sent (mk p)]"
  shows "\<exists>n. 1 \<le> n \<and> sent (snd y) = sent w @ map (\<lambda>i. mk (page + int i)) [0..<n]"
proof -
  let ?F = "\<lambda>(fetch :: int \<Rightarrow> int \<Rightarrow> world \<Rightarrow> (error + response) \<times> world) ps.
      \<forall>p w. snd (fetch ps p w) = w @ [Sent (mk p)]"
  let ?Q = "\<lambda>page w (y :: error option \<times> world).
      \<exists>n. 1 \<le> n \<and> sent (snd y) = sent w @ map (\<lambda>i. mk (page + int i)) [0..<n]"
  have "?F fetch ps \<longrightarrow> ?Q page w y"
  proof (rule paginate.raw_induct [where P = "\<lambda>fetch limit ps page cnt w y.
            ?F fetch ps \<longrightarrow> ?Q page w y", OF _ run])
    fix pg :: "(int \<Rightarrow> int \<Rightarrow> world \<Rightarrow> (error + response) \<times> world) \<Rightarrow> int option \<Rightarrow>
        int \<Rightarrow> int \<Rightarrow> int \<Rightarrow> world \<Rightarrow> (error option \<times> world) option"
      and fetch :: "int \<Rightarrow> int \<Rightarrow> world \<Rightarrow> (error + response) \<times> world"
      and limit :: "int option" and ps page cnt w y
    assume IH: "\<And>(fetch :: int \<Rightarrow> int \<Rightarrow> world \<Rightarrow> (error + response) \<times> world)
        (limit :: int option) ps page cnt w y.
        pg fetch limit ps page cnt w = Some y \<Longrightarrow> ?F fetch ps \<longrightarrow> ?Q page w y"
    assume body: "(case fetch ps page w of (Inl e, w1) \<Rightarrow> Some (Some e, w1)
      | (Inr r, w1) \<Rightarrow>
          (case py_iter (data r) of Inl e \<Rightarrow> Some (Some e, w1)
          | Inr records \<Rightarrow>
              (case emit limit cnt records of
              (ys, yield_count', over_limit) \<Rightarrow>
                if \<not> truthy (data r) \<or> int (length records) < ps
                then Some (None, w1 @ map Yielded ys)
                else if over_limit then Some (None, w1 @ map Yielded ys)
                     else pg fetch limit ps (page + 1) yield_count' (w1 @ map Yielded ys)))) =
     Some y"
    show "?F fetch ps \<longrightarrow> ?Q page w y"
    proof
      assume F: "?F fetch ps"
      obtain res w1 where fw: "fetch ps page w = (res, w1)" by (cases "fetch ps page w")
      with F have w1: "w1 = w @ [Sent (mk page)]" by (metis snd_conv)
      have one: "?Q page w (out, w1 @ map Yielded ys)" for out ys
        using w1 by (intro exI [of _ 1]) simp
      have one': "?Q page w (out, w1)" for out
        using w1 by (intro exI [of _ 1]) simp
      show "?Q page w y"
      proof (cases res)
        case (Inl e)
        with body fw one' show ?thesis by auto
      next
        case (Inr r)
        show ?thesis
        proof (cases "py_iter (data r)")
          case (Inl e)
          with body fw Inr one' show ?thesis by auto
        next
          case records: (Inr records)
          obtain ys cnt' over where e: "emit limit cnt records = (ys, cnt', over)"
            by (cases "emit limit cnt records")
          show ?thesis
          proof (cases "\<not> truthy (data r) \<or> int (length records) < ps \<or> over")
            case True
            with body fw Inr records e have "y = (None, w1 @ map Yielded ys)"
              by (auto split: if_splits)
            with one show ?thesis by simp
          next
            case False
            with body fw Inr records e
            have "pg fetch limit ps (page + 1) cnt' (w1 @ map Yielded ys) = Some y"
              by simp
            from IH [OF this, THEN mp, OF F]
            obtain n where n: "sent (snd y) =
                sent (w1 @ map Yielded ys) @ map (\<lambda>i. mk (page + 1 + int i)) [0..<n]"
              by blast
            have "map (\<lambda>i. mk (page + int i)) [0..<Suc n] =
                mk page # map (\<lambda>i. mk (page + 1 + int i)) [0..<n]"
              by (simp add: map_upt_Suc add.commute add.left_commute del: upt_Suc)
            with n w1 have "sent (snd y) = sent w @ map (\<lambda>i. mk (page + int i)) [0..<Suc n]"
              by simp
            then show ?thesis by (intro exI [of _ "Suc n"]) simp
          qed
        qed
      qed
    qed
  qed
  with fetch show ?thesis by blast
qed

section \<open>Properties\<close>

subsection \<open>C1: what the iterator yields\<close>

text \<open>
  C1 (amended). Against a service that answers the list requests with the batches of a
  script, and with a limit that is absent or not negative, every \<^verbatim>\<open>list_all\<close> runs to its
  end without an exception. It sends \<open>k\<close> requests, for the pages \<open>1, 2, \<dots>, k\<close> in this
  order, and the records it yields are those of the \<open>k\<close> batches it fetched, in their order:
  all of them when the limit is absent or \<open>0\<close>, the first \<open>limit\<close> of them when the limit is
  positive. Every record is yielded after the request that fetched its batch and before
  the next request: the run is a prefix of request 1, batch 1, request 2, batch 2, and
  so on.
\<close>

theorem list_all_yields_fetched_batches:
  assumes "\<forall>l. limit = Some l \<longrightarrow> 0 \<le> l"
  shows "\<exists>E k. list_all_of c (script_net bs) coll limit [] = Some (None, E) \<and>
      k = length (sent E) \<and> 1 \<le> k \<and> k \<le> length bs + 1 \<and>
      sent E = map (\<lambda>i. page_request c coll (initial_page_size limit) (1 + int i)) [0..<k] \<and>
      yielded E =
        (case limit of
           None \<Rightarrow> concat (take k bs)
         | Some l \<Rightarrow> if l = 0 then concat (take k bs) else take (nat l) (concat (take k bs))) \<and>
      prefix E
        (concat (map (\<lambda>i. Sent (page_request c coll (initial_page_size limit) (1 + int i)) #
                           map Yielded ((bs @ [[]]) ! i)) [0..<k]))"
proof -
  let ?ps = "initial_page_size limit"
  let ?E = "script_events (page_request c coll ?ps) limit ?ps 1 0 bs"
  have run: "list_all_of c (script_net bs) coll limit [] = Some (None, ?E)"
    by (rule list_all_of_script)
  have y: "yielded ?E =
        (case limit of
           None \<Rightarrow> concat (take (length (sent ?E)) bs)
         | Some l \<Rightarrow> if l = 0 then concat (take (length (sent ?E)) bs)
                     else take (nat l) (concat (take (length (sent ?E)) bs)))"
  proof (cases "limit = None \<or> limit = Some 0")
    case True
    then show ?thesis
      using yielded_script_events_unlimited [OF True, of "page_request c coll ?ps" ?ps 1 0 bs]
      by auto
  next
    case False
    with assms obtain l where l: "limit = Some l" "0 < l" by (cases limit) force+
    then have "(0::int) < l" "l \<noteq> 0" by simp_all
    from yielded_script_events_limit [OF this, of "page_request c coll ?ps" ?ps 1 bs] l
    show ?thesis by simp
  qed
  from run y sent_script_events [of "page_request c coll ?ps" limit ?ps 1 0 bs]
    length_sent_script_events [of "page_request c coll ?ps" limit ?ps 1 0 bs]
    script_events_prefix [of "page_request c coll ?ps" limit ?ps 1 0 bs]
  show ?thesis by blast
qed

text \<open>
  C1 as stated fails for the limit \<open>0\<close>: the iterator yields the record of the page it
  fetched, not the first zero records.
\<close>

theorem list_all_limit_zero_counterexample:
  "list_all_of (BoardsOnFireClient ''example'' ''api_key'' ''v5'') (script_net [[PStr ''a'']])
     (Organizations PNone (PStr ''ASC'')) (Some 0) [] =
   Some (None,
     [Sent (page_request (BoardsOnFireClient ''example'' ''api_key'' ''v5'')
              (Organizations PNone (PStr ''ASC'')) 100 1),
      Yielded (PStr ''a'')]) \<and>
   yielded
     [Sent (page_request (BoardsOnFireClient ''example'' ''api_key'' ''v5'')
              (Organizations PNone (PStr ''ASC'')) 100 1),
      Yielded (PStr ''a'')] \<noteq> take (nat 0) (concat [[PStr ''a'']])"
  by (simp only: list_all_of_script) (simp add: initial_page_size_def limit_reached_def)

text \<open>
  C1, the example of the claim: pages of sizes 100, 100, 100 and 40 give 340 records in
  4 requests without a limit, and 250 records in 3 requests with the limit 250.
\<close>

theorem list_all_yields_fetched_batches_witness:
  "(\<exists>E. list_all_of (BoardsOnFireClient ''example'' ''api_key'' ''v5'')
          (script_net [replicate 100 (PInt 1), replicate 100 (PInt 2),
                       replicate 100 (PInt 3), replicate 40 (PInt 4)])
          (Users PNone (PStr ''ASC'')) None [] = Some (None, E) \<and>
        length (sent E) = 4 \<and> length (yielded E) = 340 \<and>
        yielded E = replicate 100 (PInt 1) @ replicate 100 (PInt 2) @
                    replicate 100 (PInt 3) @ replicate 40 (PInt 4)) \<and>
   (\<exists>E. list_all_of (BoardsOnFireClient ''example'' ''api_key'' ''v5'')
          (script_net [replicate 100 (PInt 1), replicate 100 (PInt 2),
                       replicate 100 (PInt 3), replicate 40 (PInt 4)])
          (Users PNone (PStr ''ASC'')) (Some 250) [] = Some (None, E) \<and>
        length (sent E) = 3 \<and> length (yielded E) = 250 \<and>
        yielded E = replicate 100 (PInt 1) @ replicate 100 (PInt 2) @ replicate 50 (PInt 3))"
proof -
  let ?c = "BoardsOnFireClient ''example'' ''api_key'' ''v5''"
  let ?B = "[replicate 100 (PInt 1), replicate 100 (PInt 2),
             replicate 100 (PInt 3), replicate 40 (PInt 4)]"
  let ?coll = "Users PNone (PStr ''ASC'')"
  have len: "length (replicate 100 (PInt 1)) = 100" "length (replicate 100 (PInt 2)) = 100"
    "length (replicate 100 (PInt 3)) = 100" "length (replicate 40 (PInt 4)) = 40"
    by simp_all
  have ips: "initial_page_size None = 100" "initial_page_size (Some 250) = 100"
    by (simp_all add: initial_page_size_def)
  have "\<forall>l. (None :: int option) = Some l \<longrightarrow> 0 \<le> l" by simp
  from list_all_yields_fetched_batches [OF this, of ?c ?B ?coll]
  obtain E k where E: "list_all_of ?c (script_net ?B) ?coll None [] = Some (None, E)"
    "k = length (sent E)" "yielded E = concat (take k ?B)"
    by auto
  from E(1) have "E = script_events (page_request ?c ?coll 100) None 100 1 0 ?B"
    by (simp only: list_all_of_script ips) simp
  then have "length (sent E) = 4" by (simp only: example_340 [OF len]) (simp del: map_replicate)
  with E have 1: "\<exists>E. list_all_of ?c (script_net ?B) ?coll None [] = Some (None, E) \<and>
      length (sent E) = 4 \<and> length (yielded E) = 340 \<and>
      yielded E = replicate 100 (PInt 1) @ replicate 100 (PInt 2) @
                  replicate 100 (PInt 3) @ replicate 40 (PInt 4)"
    by simp
  have "\<forall>l. Some (250::int) = Some l \<longrightarrow> 0 \<le> l" by simp
  from list_all_yields_fetched_batches [OF this, of ?c ?B ?coll]
  obtain E' k' where E': "list_all_of ?c (script_net ?B) ?coll (Some 250) [] = Some (None, E')"
    "k' = length (sent E')" "yielded E' = take 250 (concat (take k' ?B))"
    by auto
  from E'(1) have "E' = script_events (page_request ?c ?coll 100) (Some 250) 100 1 0 ?B"
    by (simp only: list_all_of_script ips) simp
  then have "length (sent E') = 3" by (simp only: example_250 [OF len]) (simp del: map_replicate)
  with E' have 2: "\<exists>E. list_all_of ?c (script_net ?B) ?coll (Some 250) [] = Some (None, E) \<and>
      length (sent E) = 3 \<and> length (yielded E) = 250 \<and>
      yielded E = replicate 100 (PInt 1) @ replicate 100 (PInt 2) @ replicate 50 (PInt 3)"
    by (simp add: numeral_3_eq_3)
  from 1 2 show ?thesis by blast
qed

subsection \<open>C2: the limit ends the iteration\<close>

text \<open>
  C2 (amended). With a limit \<open>l\<close> other than \<open>0\<close>, a record whose yield brings the number
  of yielded records to \<open>l\<close> or beyond is the last event of the iteration: no record and no
  request follows it. This holds for every service, every starting world and every
  outcome of the iteration; against a scripted service the iteration always comes to an
  end. For pages of sizes 100, 100, 100 and 40 and the limit 250 the iteration is:
  request 1, the first batch, request 2, the second batch, request 3, the first 50
  records of the third batch.
\<close>

theorem list_all_stops_at_limit:
  "(l \<noteq> 0 \<and> list_all_of c net coll (Some l) w = Some (out, w @ pre @ Yielded r # post) \<and>
    l \<le> int (length (yielded pre)) + 1 \<longrightarrow> post = []) \<and>
   (\<exists>E. list_all_of c (script_net bs) coll (Some l) [] = Some (None, E)) \<and>
   (length b1 = 100 \<and> length b2 = 100 \<and> length b3 = 100 \<and> length b4 = 40 \<longrightarrow>
      list_all_of c (script_net [b1, b2, b3, b4]) coll (Some 250) [] =
        Some (None,
          Sent (page_request c coll 100 1) # map Yielded b1 @
          Sent (page_request c coll 100 2) # map Yielded b2 @
          Sent (page_request c coll 100 3) # map Yielded (take 50 b3)))"
proof (intro conjI impI)
  assume a: "l \<noteq> 0 \<and> list_all_of c net coll (Some l) w = Some (out, w @ pre @ Yielded r # post) \<and>
    l \<le> int (length (yielded pre)) + 1"
  then have run: "list_all_of c net coll (Some l) w = Some (out, w @ pre @ Yielded r # post)"
    and nz: "l \<noteq> 0" and reach: "l \<le> int (length (yielded pre)) + 1"
    by simp_all
  show "post = []"
  proof (cases "0 < l")
    case True
    from list_all_of_limit_general [OF run True]
    have le: "int (length (yielded (pre @ Yielded r # post))) \<le> l"
      and fin: "int (length (yielded (pre @ Yielded r # post))) = l \<Longrightarrow>
        \<exists>E' r'. pre @ Yielded r # post = E' @ [Yielded r']"
      by auto
    from le have le': "length (yielded (pre @ Yielded r # post)) \<le> nat l" by linarith
    from le reach have eq: "length (yielded pre) + 1 = nat l" by simp
    have fin': "\<exists>E' r'. pre @ Yielded r # post = E' @ [Yielded r']"
      if "length (yielded (pre @ Yielded r # post)) = nat l"
      using that True by (intro fin) linarith
    from limit_stops [OF le' fin' refl eq] show ?thesis .
  next
    case False
    with nz have neg: "l < 0" by simp
    from list_all_of_limit_passed [OF run neg]
    have le: "length (yielded (pre @ Yielded r # post)) \<le> 1"
      and fin: "length (yielded (pre @ Yielded r # post)) = 1 \<Longrightarrow>
        \<exists>E' r'. pre @ Yielded r # post = E' @ [Yielded r']"
      by auto
    from le have eq: "length (yielded pre) + 1 = 1" by simp
    from limit_stops [OF le fin refl eq] show ?thesis .
  qed
next
  show "\<exists>E. list_all_of c (script_net bs) coll (Some l) [] = Some (None, E)"
    by (simp only: list_all_of_script) blast
next
  assume "length b1 = 100 \<and> length b2 = 100 \<and> length b3 = 100 \<and> length b4 = 40"
  then have len: "length b1 = 100" "length b2 = 100" "length b3 = 100" "length b4 = 40"
    by simp_all
  have ips: "initial_page_size (Some 250) = 100" by (simp add: initial_page_size_def)
  show "list_all_of c (script_net [b1, b2, b3, b4]) coll (Some 250) [] =
        Some (None,
          Sent (page_request c coll 100 1) # map Yielded b1 @
          Sent (page_request c coll 100 2) # map Yielded b2 @
          Sent (page_request c coll 100 3) # map Yielded (take 50 b3))"
    unfolding list_all_of_script ips example_250 [OF len] ..
qed

text \<open>
  C2 as stated fails for the limit \<open>0\<close>: the number of yielded records is at the limit
  from the start and far beyond it after the first page, and yet the iteration sends a
  second request and yields another record.
\<close>

theorem list_all_limit_zero_continues_counterexample:
  "list_all_of (BoardsOnFireClient ''example'' ''api_key'' ''v5'')
     (script_net [replicate 100 (PInt 1), [PInt 2]])
     (Organizations PNone (PStr ''ASC'')) (Some 0) [] =
   Some (None,
     Sent (page_request (BoardsOnFireClient ''example'' ''api_key'' ''v5'')
             (Organizations PNone (PStr ''ASC'')) 100 1) #
     map Yielded (replicate 100 (PInt 1)) @
     [Sent (page_request (BoardsOnFireClient ''example'' ''api_key'' ''v5'')
              (Organizations PNone (PStr ''ASC'')) 100 2),
      Yielded (PInt 2)]) \<and>
   int (length (yielded
     (Sent (page_request (BoardsOnFireClient ''example'' ''api_key'' ''v5'')
              (Organizations PNone (PStr ''ASC'')) 100 1) #
      map Yielded (replicate 100 (PInt 1))))) \<ge> 0 \<and>
   [Sent (page_request (BoardsOnFireClient ''example'' ''api_key'' ''v5'')
            (Organizations PNone (PStr ''ASC'')) 100 2),
    Yielded (PInt 2)] \<noteq> []"
  by (simp only: list_all_of_script)
    (simp add: initial_page_size_def emit_unlimited del: map_replicate)

text \<open>
  C2 on concrete batches: with the limit 250, three requests, the third batch cut after
  50 records, the last of which is the 250th record; with the limit \<open>-1\<close>, the first record
  ends the iteration.
\<close>

theorem list_all_stops_at_limit_witness:
  "list_all_of (BoardsOnFireClient ''example'' ''api_key'' ''v5'')
     (script_net [replicate 100 (PInt 1), replicate 100 (PInt 2),
                  replicate 100 (PInt 3), replicate 40 (PInt 4)])
     (Entities ''widget'' [] PNone PNone PNone) (Some 250) [] =
   Some (None,
     Sent (page_request (BoardsOnFireClient ''example'' ''api_key'' ''v5'')
             (Entities ''widget'' [] PNone PNone PNone) 100 1) #
     map Yielded (replicate 100 (PInt 1)) @
     Sent (page_request (BoardsOnFireClient ''example'' ''api_key'' ''v5'')
             (Entities ''widget'' [] PNone PNone PNone) 100 2) #
     map Yielded (replicate 100 (PInt 2)) @
     Sent (page_request (BoardsOnFireClient ''example'' ''api_key'' ''v5'')
             (Entities ''widget'' [] PNone PNone PNone) 100 3) #
     map Yielded (replicate 49 (PInt 3)) @ Yielded (PInt 3) # []) \<and>
   int (length (yielded
     (Sent (page_request (BoardsOnFireClient ''example'' ''api_key'' ''v5'')
             (Entities ''widget'' [] PNone PNone PNone) 100 1) #
      map Yielded (replicate 100 (PInt 1)) @
      Sent (page_request (BoardsOnFireClient ''example'' ''api_key'' ''v5'')
             (Entities ''widget'' [] PNone PNone PNone) 100 2) #
      map Yielded (replicate 100 (PInt 2)) @
      Sent (page_request (BoardsOnFireClient ''example'' ''api_key'' ''v5'')
             (Entities ''widget'' [] PNone PNone PNone) 100 3) #
      map Yielded (replicate 49 (PInt 3))))) + 1 = 250 \<and>
   list_all_of (BoardsOnFireClient ''example'' ''api_key'' ''v5'')
     (script_net [[PInt 1, PInt 2], [PInt 3]])
     (Entities ''widget'' [] PNone PNone PNone) (Some (- 1)) [] =
   Some (None,
     [] @ [Sent (page_request (BoardsOnFireClient ''example'' ''api_key'' ''v5'')
              (Entities ''widget'' [] PNone PNone PNone) (- 1) 1)] @ Yielded (PInt 1) # []) \<and>
   (- 1 :: int) \<le> int (length (yielded
     [Sent (page_request (BoardsOnFireClient ''example'' ''api_key'' ''v5'')
              (Entities ''widget'' [] PNone PNone PNone) (- 1) 1)])) + 1"
proof -
  have "(50::nat) = Suc 49" by simp
  then have "replicate 50 (PInt 3) = PInt 3 # replicate 49 (PInt 3)"
    by (simp only: replicate_Suc)
  then have r: "replicate 50 (PInt 3) = replicate 49 (PInt 3) @ [PInt 3]"
    by (simp only: replicate_append_same)
  have n: "list_all_of (BoardsOnFireClient ''example'' ''api_key'' ''v5'')
     (script_net [[PInt 1, PInt 2], [PInt 3]])
     (Entities ''widget'' [] PNone PNone PNone) (Some (- 1)) [] =
   Some (None,
     [] @ [Sent (page_request (BoardsOnFireClient ''example'' ''api_key'' ''v5'')
              (Entities ''widget'' [] PNone PNone PNone) (- 1) 1)] @ Yielded (PInt 1) # [])"
    by (simp only: list_all_of_script) (simp add: initial_page_size_def limit_reached_def)
  from list_all_stops_at_limit [THEN conjunct2, THEN conjunct2,
      of "replicate 100 (PInt 1)" "replicate 100 (PInt 2)" "replicate 100 (PInt 3)"
         "replicate 40 (PInt 4)" "BoardsOnFireClient ''example'' ''api_key'' ''v5''"
         "Entities ''widget'' [] PNone PNone PNone"]
    list_all_stops_at_limit [THEN conjunct1,
      of "- 1" "BoardsOnFireClient ''example'' ''api_key'' ''v5''"
         "script_net [[PInt 1, PInt 2], [PInt 3]]"
         "Entities ''widget'' [] PNone PNone PNone" "[]" None
         "[Sent (page_request (BoardsOnFireClient ''example'' ''api_key'' ''v5'')
              (Entities ''widget'' [] PNone PNone PNone) (- 1) 1)]" "PInt 1" "[]"]
    n
  show ?thesis
    by (simp add: r del: map_replicate)
qed

subsection \<open>C3: a short batch ends the iteration\<close>

text \<open>
  C3. When the limit check never fires (the limit is absent or \<open>0\<close>, or larger than the
  number of records of the batches fetched, or these batches hold no record at all), the
  iteration requests page after page as long as the batches are neither empty nor shorter
  than the page size, and ends with the first batch that is: with \<open>k\<close> leading full
  batches it sends the requests for the pages \<open>1, \<dots>, k + 1\<close> and yields all records of
  these batches. After a script of full batches only, page \<open>k + 1\<close> is the empty batch the
  service returns past its last page. With a negative limit the page size is negative, no
  batch is shorter than it, and only an empty first batch ends the iteration this way.
\<close>

theorem list_all_stops_at_short_batch:
  assumes ps: "ps = initial_page_size limit"
    and uncut: "limit = None \<or> limit = Some 0 \<or>
       (\<exists>l. limit = Some l \<and> int (length (concat (take (Suc (full_pages ps bs)) bs))) < l) \<or>
       concat (take (Suc (full_pages ps bs)) bs) = []"
  shows "(\<exists>E. list_all_of c (script_net bs) coll limit [] = Some (None, E) \<and>
          sent E = map (\<lambda>i. page_request c coll ps (1 + int i)) [0..<Suc (full_pages ps bs)] \<and>
          yielded E = concat (take (Suc (full_pages ps bs)) bs)) \<and>
       (\<forall>i<full_pages ps bs. bs ! i \<noteq> [] \<and> ps \<le> int (length (bs ! i))) \<and>
       full_pages ps bs \<le> length bs \<and>
       (full_pages ps bs < length bs \<longrightarrow>
          bs ! full_pages ps bs = [] \<or> int (length (bs ! full_pages ps bs)) < ps)"
proof -
  let ?E = "script_events (page_request c coll ps) limit ps 1 0 bs"
  have run: "list_all_of c (script_net bs) coll limit [] = Some (None, ?E)"
    unfolding ps by (rule list_all_of_script)
  have sy: "sent ?E = map (\<lambda>i. page_request c coll ps (1 + int i)) [0..<Suc (full_pages ps bs)] \<and>
      yielded ?E = concat (take (Suc (full_pages ps bs)) bs)"
  proof (cases "concat (take (Suc (full_pages ps bs)) bs) = []")
    case True
    from script_events_no_records [OF True, of "page_request c coll ps" limit 1 0] True
    show ?thesis by simp
  next
    case False
    with uncut have u: "limit = None \<or> limit = Some 0 \<or>
       (\<exists>l. limit = Some l \<and> int (length (concat (take (Suc (full_pages ps bs)) bs))) < l)"
      by blast
    then have "limit = None \<or> limit = Some 0 \<or>
       (\<exists>l. limit = Some l \<and> 0 + int (length (concat (take (Suc (full_pages ps bs)) bs))) < l)"
      by simp
    then have k: "length (sent ?E) = Suc (full_pages ps bs)"
      by (rule sent_script_events_uncut)
    have s: "sent ?E = map (\<lambda>i. page_request c coll ps (1 + int i)) [0..<Suc (full_pages ps bs)]"
      using sent_script_events [of "page_request c coll ps" limit ps 1 0 bs] unfolding k .
    have y: "yielded ?E = concat (take (Suc (full_pages ps bs)) bs)"
    proof (cases "limit = None \<or> limit = Some 0")
      case True
      from yielded_script_events_unlimited [OF True, of "page_request c coll ps" ps 1 0 bs]
      show ?thesis unfolding k .
    next
      case False
      with u obtain l where l: "limit = Some l" "l \<noteq> 0"
        "int (length (concat (take (Suc (full_pages ps bs)) bs))) < l" by auto
      then have "0 < l" by linarith
      from yielded_script_events_limit [OF this l(2), of "page_request c coll ps" ps 1 bs] l
      show ?thesis by (simp add: k [unfolded l(1)])
    qed
    from s y show ?thesis ..
  qed
  from run sy full_pages_bounds [of ps bs] show ?thesis by blast
qed

text \<open>
  C3 at its boundaries: an empty first page gives one request and no record; a single
  page that is exactly full gives a second request, which yields nothing; and with the
  limit \<open>-5\<close>, where the page size is \<open>-5\<close> and no batch is shorter than it, it is the
  emptiness of the first batch that ends the iteration after one request.
\<close>

theorem list_all_stops_at_short_batch_witness:
  "(\<exists>E. list_all_of (BoardsOnFireClient ''example'' ''api_key'' ''v5'') (script_net [[]])
          (Organizations PNone (PStr ''ASC'')) None [] = Some (None, E) \<and>
        sent E = [page_request (BoardsOnFireClient ''example'' ''api_key'' ''v5'')
                    (Organizations PNone (PStr ''ASC'')) 100 1] \<and>
        yielded E = []) \<and>
   (\<exists>E. list_all_of (BoardsOnFireClient ''example'' ''api_key'' ''v5'')
          (script_net [replicate 100 (PInt 1)])
          (Organizations PNone (PStr ''ASC'')) None [] = Some (None, E) \<and>
        sent E = [page_request (BoardsOnFireClient ''example'' ''api_key'' ''v5'')
                    (Organizations PNone (PStr ''ASC'')) 100 1,
                  page_request (BoardsOnFireClient ''example'' ''api_key'' ''v5'')
                    (Organizations PNone (PStr ''ASC'')) 100 2] \<and>
        yielded E = replicate 100 (PInt 1)) \<and>
   (\<exists>E. list_all_of (BoardsOnFireClient ''example'' ''api_key'' ''v5'')
          (script_net [[], [PInt 1]])
          (Organizations PNone (PStr ''ASC'')) (Some (- 5)) [] = Some (None, E) \<and>
        sent E = [page_request (BoardsOnFireClient ''example'' ''api_key'' ''v5'')
                    (Organizations PNone (PStr ''ASC'')) (- 5) 1] \<and>
        yielded E = [])"
proof -
  let ?c = "BoardsOnFireClient ''example'' ''api_key'' ''v5''"
  let ?coll = "Organizations PNone (PStr ''ASC'')"
  have ips: "100 = initial_page_size None" by (simp add: initial_page_size_def)
  have ipn: "- 5 = initial_page_size (Some (- 5))" by (simp add: initial_page_size_def)
  have u: "(None :: int option) = None \<or> None = Some 0 \<or> Q \<or> R" for Q R by simp
  have k0: "full_pages 100 [[]] = 0" by (simp add: full_pages_def)
  have k1: "full_pages 100 [replicate 100 (PInt 1)] = 1" by (simp add: full_pages_def)
  have kn: "full_pages (- 5) [[], [PInt 1]] = 0" by (simp add: full_pages_def)
  have un: "Some (- 5 :: int) = None \<or> Some (- 5 :: int) = Some 0 \<or>
       (\<exists>l. Some (- 5 :: int) = Some l \<and>
          int (length (concat (take (Suc (full_pages (- 5) [[], [PInt 1]])) [[], [PInt 1]]))) < l) \<or>
       concat (take (Suc (full_pages (- 5) [[], [PInt 1]])) [[], [PInt 1]]) = []"
    by (simp add: kn)
  from list_all_stops_at_short_batch [OF ips u, where bs = "[[]]" and c = ?c and coll = ?coll]
  have 1: "\<exists>E. list_all_of ?c (script_net [[]]) ?coll None [] = Some (None, E) \<and>
        sent E = [page_request ?c ?coll 100 1] \<and> yielded E = []"
    by (simp add: k0)
  from list_all_stops_at_short_batch [OF ips u, where bs = "[replicate 100 (PInt 1)]" and c = ?c
      and coll = ?coll]
  have 2: "\<exists>E. list_all_of ?c (script_net [replicate 100 (PInt 1)]) ?coll None [] = Some (None, E) \<and>
        sent E = [page_request ?c ?coll 100 1, page_request ?c ?coll 100 2] \<and>
        yielded E = replicate 100 (PInt 1)"
    by (simp add: k1)
  from list_all_stops_at_short_batch [OF ipn un, where c = ?c and coll = ?coll]
  have 3: "\<exists>E. list_all_of ?c (script_net [[], [PInt 1]]) ?coll (Some (- 5)) [] = Some (None, E) \<and>
        sent E = [page_request ?c ?coll (- 5) 1] \<and> yielded E = []"
    by (simp add: kn)
  from 1 2 3 show ?thesis by blast
qed

subsection \<open>C4: status codes and errors\<close>

text \<open>
  C4 (amended). For every transport send, with \<open>r\<close> the answer of the service: status 429
  raises \<open>RateLimitException\<close>; status 404 raises \<open>NotFoundException\<close>; every other status
  from 400 to 599 raises \<open>RestClientException\<close> with a message that holds the status code
  and the body (as Python writes bytes); every other status counts as success, where a
  body that does not decode as JSON raises \<open>RestClientException\<close>, a body that decodes is
  returned in the envelope, and a \<^verbatim>\<open>DELETE\<close> returns an envelope without payload, whatever
  the body is and whether or not it decodes.
\<close>

theorem send_request_status_mapping:
  assumes r: "r = net (sent w)
      \<lparr>req_method = m, req_url = client_url c @ ep,
       req_headers = dict_or [(''x-api-key'', client_api_key c)] hs,
       req_params = prm, req_json = bdy\<rparr>"
  shows
    "(resp_status r = 429 \<longrightarrow>
        fst (send_request c net m ep prm bdy hs w) = Inl (RateLimitException ''Rate limit exceeded'')) \<and>
     (resp_status r = 404 \<longrightarrow>
        fst (send_request c net m ep prm bdy hs w) = Inl (NotFoundException ''Resource not found'')) \<and>
     (400 \<le> resp_status r \<and> resp_status r < 600 \<and> resp_status r \<noteq> 429 \<and> resp_status r \<noteq> 404 \<longrightarrow>
        fst (send_request c net m ep prm bdy hs w) =
          Inl (RestClientException
            (''Bad response. '' @ [CHR 0x0A] @ '' Status Code: '' @ str_int (resp_status r) @
             [CHR 0x0A] @ ''  Message: '' @ bytes_repr (resp_content r)))) \<and>
     (\<not> (400 \<le> resp_status r \<and> resp_status r < 600) \<and> m \<noteq> ''DELETE'' \<and> resp_json r = None \<longrightarrow>
        fst (send_request c net m ep prm bdy hs w) =
          Inl (RestClientException ''Response does not contain valid json'')) \<and>
     (\<not> (400 \<le> resp_status r \<and> resp_status r < 600) \<and> m \<noteq> ''DELETE'' \<and> resp_json r = Some d \<longrightarrow>
        fst (send_request c net m ep prm bdy hs w) =
          Inr \<lparr>status_code = resp_status r, headers = resp_headers r, message = [], data = d\<rparr>) \<and>
     (\<not> (400 \<le> resp_status r \<and> resp_status r < 600) \<and> m = ''DELETE'' \<longrightarrow>
        fst (send_request c net m ep prm bdy hs w) =
          Inr \<lparr>status_code = resp_status r, headers = resp_headers r, message = [],
               data = PNone\<rparr>)"
proof -
  have sr: "fst (send_request c net m ep prm bdy hs w) =
      (if ok r then
         (if m = ''DELETE'' then
            Inr \<lparr>status_code = resp_status r, headers = resp_headers r, message = [],
                 data = PNone\<rparr>
          else
            (case resp_json r of
               None \<Rightarrow> Inl (RestClientException ''Response does not contain valid json'')
             | Some d \<Rightarrow>
                 Inr \<lparr>status_code = resp_status r, headers = resp_headers r, message = [],
                      data = d\<rparr>))
       else if resp_status r = 429 then Inl (RateLimitException ''Rate limit exceeded'')
       else if resp_status r = 404 then Inl (NotFoundException ''Resource not found'')
       else Inl (RestClientException (bad_response_message r)))"
    unfolding r by (simp add: send_request_def Let_def split: option.splits)
  show ?thesis
    unfolding sr by (simp add: ok_def bad_response_message_def)
qed

text \<open>
  C4 as stated fails for a status that is neither 2xx nor an error status of the requests
  library: a 300 answer with a JSON body raises nothing and is returned as a success.
\<close>

theorem send_request_redirect_counterexample:
  "fst (send_request (BoardsOnFireClient ''example'' ''api_key'' ''v5'')
         (const_net \<lparr>resp_status = 300, resp_headers = [], resp_content = ''[]'',
                      resp_json = Some (PList [])\<rparr>)
         ''GET'' ''users'' PNone PNone [] []) =
   Inr \<lparr>status_code = 300, headers = [], message = [], data = PList []\<rparr>"
  by (simp add: send_request_def Let_def ok_def const_net_def)

text \<open>C4 on the statuses 429, 404, 400 and 200 (undecodable, decodable, and a \<^verbatim>\<open>DELETE\<close>).\<close>

theorem send_request_status_mapping_witness:
  "fst (send_request (BoardsOnFireClient ''example'' ''api_key'' ''v5'')
         (const_net \<lparr>resp_status = 429, resp_headers = [], resp_content = ''slow down'',
                      resp_json = None\<rparr>)
         ''GET'' ''users'' PNone PNone [] []) = Inl (RateLimitException ''Rate limit exceeded'') \<and>
   fst (send_request (BoardsOnFireClient ''example'' ''api_key'' ''v5'')
         (const_net \<lparr>resp_status = 404, resp_headers = [], resp_content = ''gone'',
                      resp_json = None\<rparr>)
         ''GET'' ''users/1'' PNone PNone [] []) = Inl (NotFoundException ''Resource not found'') \<and>
   fst (send_request (BoardsOnFireClient ''example'' ''api_key'' ''v5'')
         (const_net \<lparr>resp_status = 400, resp_headers = [], resp_content = ''bad input'',
                      resp_json = None\<rparr>)
         ''GET'' ''users'' PNone PNone [] []) =
     Inl (RestClientException
       (''Bad response. '' @ [CHR 0x0A] @ '' Status Code: 400'' @ [CHR 0x0A] @
        ''  Message: b'' @ [CHR 0x27] @ ''bad input'' @ [CHR 0x27])) \<and>
   fst (send_request (BoardsOnFireClient ''example'' ''api_key'' ''v5'')
         (const_net \<lparr>resp_status = 200, resp_headers = [], resp_content = ''<html>'',
                      resp_json = None\<rparr>)
         ''GET'' ''users'' PNone PNone [] []) =
     Inl (RestClientException ''Response does not contain valid json'') \<and>
   fst (send_request (BoardsOnFireClient ''example'' ''api_key'' ''v5'')
         (const_net \<lparr>resp_status = 200, resp_headers = [], resp_content = ''{}'',
                      resp_json = Some (PDict [])\<rparr>)
         ''GET'' ''users/1'' PNone PNone [] []) =
     Inr \<lparr>status_code = 200, headers = [], message = [], data = PDict []\<rparr> \<and>
   fst (send_request (BoardsOnFireClient ''example'' ''api_key'' ''v5'')
         (const_net \<lparr>resp_status = 200, resp_headers = [], resp_content = ''{}'',
                      resp_json = Some (PDict [])\<rparr>)
         ''DELETE'' ''entities/widget/entityobjects/1'' PNone PNone [] []) =
     Inr \<lparr>status_code = 200, headers = [], message = [], data = PNone\<rparr>"
proof -
  let ?c = "BoardsOnFireClient ''example'' ''api_key'' ''v5''"
  note m = send_request_status_mapping [OF refl, where c = ?c and w = "[]" and hs = "[]"
      and prm = PNone and bdy = PNone]
  show ?thesis
    using
      m [where net = "const_net \<lparr>resp_status = 429, resp_headers = [], resp_content = ''slow down'',
                      resp_json = None\<rparr>" and m = "''GET''" and ep = "''users''",
         THEN conjunct1]
      m [where net = "const_net \<lparr>resp_status = 404, resp_headers = [], resp_content = ''gone'',
                      resp_json = None\<rparr>" and m = "''GET''" and ep = "''users/1''",
         THEN conjunct2, THEN conjunct1]
      m [where net = "const_net \<lparr>resp_status = 400, resp_headers = [], resp_content = ''bad input'',
                      resp_json = None\<rparr>" and m = "''GET''" and ep = "''users''",
         THEN conjunct2, THEN conjunct2, THEN conjunct1]
      m [where net = "const_net \<lparr>resp_status = 200, resp_headers = [], resp_content = ''<html>'',
                      resp_json = None\<rparr>" and m = "''GET''" and ep = "''users''",
         THEN conjunct2, THEN conjunct2, THEN conjunct2, THEN conjunct1]
      m [where net = "const_net \<lparr>resp_status = 200, resp_headers = [], resp_content = ''{}'',
                      resp_json = Some (PDict [])\<rparr>" and m = "''GET''" and ep = "''users/1''"
           and d = "PDict []",
         THEN conjunct2, THEN conjunct2, THEN conjunct2, THEN conjunct2, THEN conjunct1]
      m [where net = "const_net \<lparr>resp_status = 200, resp_headers = [], resp_content = ''{}'',
                      resp_json = Some (PDict [])\<rparr>" and m = "''DELETE''"
           and ep = "''entities/widget/entityobjects/1''",
         THEN conjunct2, THEN conjunct2, THEN conjunct2, THEN conjunct2, THEN conjunct2]
    by (simp add: const_net_def str_int_examples bytes_repr_examples)
qed

subsection \<open>C5: validation comes before the transport\<close>

text \<open>
  C5. A dictionary without \<open>organization_id\<close> (entities), or without \<open>organization_id\<close> and
  \<open>timestamp\<close> (datasources), makes \<^verbatim>\<open>create\<close> raise \<open>ValidationError\<close> and leaves the world as
  it was: no request is sent. The same holds for \<^verbatim>\<open>upsert\<close> on a list of dictionaries one of
  which lacks a required key. A payload that holds the required keys passes validation
  whatever other keys it has. An \<^verbatim>\<open>upsert\<close> whose argument is not a list raises
  \<open>ValidationError\<close>, again without a request.
\<close>

theorem validation_before_transport:
  "(''organization_id'' \<notin> fst ` set kvs \<longrightarrow>
      entities_create c net name (PDict kvs) w =
        (Inl (ValidationError ''organization_id is required to create an entity object''), w)) \<and>
   (\<not> {''organization_id'', ''timestamp''} \<subseteq> fst ` set kvs \<longrightarrow>
      datasources_create c net name (PDict kvs) w =
        (Inl (ValidationError
           ''organization_id and timestamp is required to create a datasource object''), w)) \<and>
   ((\<exists>row \<in> set rows. ''organization_id'' \<notin> fst ` set row) \<longrightarrow>
      entities_upsert c net name (PList (map PDict rows)) truncate_flag w =
        (Inl (ValidationError ''organization_id is required to create an entity object''), w)) \<and>
   ((\<exists>row \<in> set rows. \<not> {''organization_id'', ''timestamp''} \<subseteq> fst ` set row) \<longrightarrow>
      datasources_upsert c net name (PList (map PDict rows)) w =
        (Inl (ValidationError
           ''organization_id and timestamp is required to create a datasource object''), w)) \<and>
   (''organization_id'' \<in> fst ` set kvs \<longrightarrow> ValidateEntity_create (PDict kvs) = Inr ()) \<and>
   ({''organization_id'', ''timestamp''} \<subseteq> fst ` set kvs \<longrightarrow>
      ValidateDataSource_create (PDict kvs) = Inr ()) \<and>
   ((\<forall>row \<in> set rows. ''organization_id'' \<in> fst ` set row) \<longrightarrow>
      ValidateEntity_upsert (PList (map PDict rows)) = Inr ()) \<and>
   ((\<forall>row \<in> set rows. {''organization_id'', ''timestamp''} \<subseteq> fst ` set row) \<longrightarrow>
      ValidateDataSource_upsert (PList (map PDict rows)) = Inr ()) \<and>
   ((\<forall>xs. payload \<noteq> PList xs) \<longrightarrow>
      entities_upsert c net name payload truncate_flag w =
        (Inl (ValidationError ''Data must be a list of dictionaries''), w) \<and>
      datasources_upsert c net name payload w =
        (Inl (ValidationError ''Data must be a list of dictionaries''), w))"
proof (intro conjI impI)
  assume "\<forall>xs. payload \<noteq> PList xs"
  then show "entities_upsert c net name payload truncate_flag w =
        (Inl (ValidationError ''Data must be a list of dictionaries''), w)"
    by (cases payload) (simp_all add: entities_upsert_def ValidateEntity_upsert_def)
next
  assume "\<forall>xs. payload \<noteq> PList xs"
  then show "datasources_upsert c net name payload w =
        (Inl (ValidationError ''Data must be a list of dictionaries''), w)"
    by (cases payload) (simp_all add: datasources_upsert_def ValidateDataSource_upsert_def)
qed (auto simp: entities_create_def datasources_create_def entities_upsert_def
      datasources_upsert_def ValidateEntity_create_def ValidateDataSource_create_def
      ValidateEntity_upsert_def ValidateDataSource_upsert_def has_keys_PDict
      all_rows_have_dicts list_all_iff)

text \<open>C5 on concrete payloads, in a world that starts without any event.\<close>

theorem validation_before_transport_witness:
  "entities_create (BoardsOnFireClient ''example'' ''api_key'' ''v5'') (const_net (ok_json PNone))
     ''widget'' (PDict [(''name'', PStr ''X'')]) [] =
     (Inl (ValidationError ''organization_id is required to create an entity object''), []) \<and>
   datasources_create (BoardsOnFireClient ''example'' ''api_key'' ''v5'') (const_net (ok_json PNone))
     ''temps'' (PDict [(''organization_id'', PStr ''1'')]) [] =
     (Inl (ValidationError
        ''organization_id and timestamp is required to create a datasource object''), []) \<and>
   entities_upsert (BoardsOnFireClient ''example'' ''api_key'' ''v5'') (const_net (ok_json PNone))
     ''widget'' (PList [PDict [(''organization_id'', PStr ''1'')], PDict [(''name'', PStr ''X'')]])
     False [] =
     (Inl (ValidationError ''organization_id is required to create an entity object''), []) \<and>
   datasources_upsert (BoardsOnFireClient ''example'' ''api_key'' ''v5'') (const_net (ok_json PNone))
     ''temps'' (PList [PDict [(''organization_id'', PStr ''1'')]]) [] =
     (Inl (ValidationError
        ''organization_id and timestamp is required to create a datasource object''), []) \<and>
   ValidateEntity_create (PDict [(''organization_id'', PStr ''1''), (''extra'', PInt 3)]) = Inr () \<and>
   ValidateDataSource_create
     (PDict [(''extra'', PInt 3), (''timestamp'', PStr ''2022-01-01''),
             (''organization_id'', PStr ''1'')]) = Inr () \<and>
   ValidateEntity_upsert
     (PList [PDict [(''organization_id'', PStr ''1'')],
             PDict [(''name'', PStr ''X''), (''organization_id'', PStr ''2'')]]) = Inr () \<and>
   ValidateDataSource_upsert
     (PList [PDict [(''organization_id'', PStr ''1''), (''timestamp'', PStr ''2022-01-01'')]]) =
     Inr () \<and>
   entities_upsert (BoardsOnFireClient ''example'' ''api_key'' ''v5'') (const_net (ok_json PNone))
     ''widget'' (PDict [(''organization_id'', PStr ''1'')]) False [] =
     (Inl (ValidationError ''Data must be a list of dictionaries''), []) \<and>
   datasources_upsert (BoardsOnFireClient ''example'' ''api_key'' ''v5'') (const_net (ok_json PNone))
     ''temps'' (PDict [(''organization_id'', PStr ''1'')]) [] =
     (Inl (ValidationError ''Data must be a list of dictionaries''), [])"
proof -
  let ?c = "BoardsOnFireClient ''example'' ''api_key'' ''v5''"
  let ?net = "const_net (ok_json PNone)"
  note v = validation_before_transport [where c = ?c and net = ?net and w = "[]"
      and truncate_flag = False]
  show ?thesis
    using
      v [where kvs = "[(''name'', PStr ''X'')]" and name = "''widget''", THEN conjunct1]
      v [where kvs = "[(''organization_id'', PStr ''1'')]" and name = "''temps''",
         THEN conjunct2, THEN conjunct1]
      v [where rows = "[[(''organization_id'', PStr ''1'')], [(''name'', PStr ''X'')]]"
           and name = "''widget''",
         THEN conjunct2, THEN conjunct2, THEN conjunct1]
      v [where rows = "[[(''organization_id'', PStr ''1'')]]" and name = "''temps''",
         THEN conjunct2, THEN conjunct2, THEN conjunct2, THEN conjunct1]
      v [where kvs = "[(''organization_id'', PStr ''1''), (''extra'', PInt 3)]",
         THEN conjunct2, THEN conjunct2, THEN conjunct2, THEN conjunct2, THEN conjunct1]
      v [where kvs = "[(''extra'', PInt 3), (''timestamp'', PStr ''2022-01-01''),
                       (''organization_id'', PStr ''1'')]",
         THEN conjunct2, THEN conjunct2, THEN conjunct2, THEN conjunct2, THEN conjunct2,
         THEN conjunct1]
      v [where rows = "[[(''organization_id'', PStr ''1'')],
                        [(''name'', PStr ''X''), (''organization_id'', PStr ''2'')]]",
         THEN conjunct2, THEN conjunct2, THEN conjunct2, THEN conjunct2, THEN conjunct2,
         THEN conjunct2, THEN conjunct1]
      v [where rows = "[[(''organization_id'', PStr ''1''), (''timestamp'', PStr ''2022-01-01'')]]",
         THEN conjunct2, THEN conjunct2, THEN conjunct2, THEN conjunct2, THEN conjunct2,
         THEN conjunct2, THEN conjunct2, THEN conjunct1]
      v [where payload = "PDict [(''organization_id'', PStr ''1'')]" and name = "''widget''",
         THEN conjunct2, THEN conjunct2, THEN conjunct2, THEN conjunct2, THEN conjunct2,
         THEN conjunct2, THEN conjunct2, THEN conjunct2, THEN mp, THEN conjunct1]
      v [where payload = "PDict [(''organization_id'', PStr ''1'')]" and name = "''temps''",
         THEN conjunct2, THEN conjunct2, THEN conjunct2, THEN conjunct2, THEN conjunct2,
         THEN conjunct2, THEN conjunct2, THEN conjunct2, THEN mp, THEN conjunct2]
    by simp
qed

subsection \<open>C6: page sizes above the maximum\<close>



subsection \<open>C7: the list requests of Entities and DataSources\<close>

text \<open>
  C7 (amended). \<^verbatim>\<open>list\<close> and \<^verbatim>\<open>list_all\<close> of Entities and DataSources send \<^verbatim>\<open>POST\<close> requests to
  a path that ends in \<^verbatim>\<open>/list\<close>. DataSources carry \<open>page_size\<close>, \<open>page\<close>, \<open>order\<close>, \<open>group\<close>,
  \<open>filter\<close> and \<open>target_organization_ids\<close> in the JSON body, with no query parameters;
  Entities carry them as query parameters, with no body. A \<^verbatim>\<open>list\<close> sends one such request
  (with the page size cut to 500). A \<^verbatim>\<open>list_all\<close> that comes to an end, against any service
  and from any world, has sent at least one such request, one per page, for the pages
  1, 2, and so on; against a scripted service it always comes to an end.
\<close>

theorem listing_requests_of_entities_and_datasources:
  "sent (snd (entities_list c net name organizations page_size page ordr grp filt w)) =
     sent w @
     [\<lparr>req_method = ''POST'',
       req_url = client_url c @ ''entities/'' @ name @ ''/entityobjects/list'',
       req_headers = [(''x-api-key'', client_api_key c)],
       req_params =
         PDict [(''page_size'', PInt (min page_size 500)), (''page'', PInt page),
               (''order'', ordr), (''group'', grp), (''filter'', filt),
               (''target_organization_ids'', PStr (join '','' organizations))],
       req_json = PNone\<rparr>] \<and>
   sent (snd (datasources_list c net name organizations page_size page ordr grp filt w)) =
     sent w @
     [\<lparr>req_method = ''POST'',
       req_url = client_url c @ ''datasources/'' @ name @ ''/dataobjects/list'',
       req_headers = [(''x-api-key'', client_api_key c)],
       req_params = PNone,
       req_json =
         PDict [(''page_size'', PInt (min page_size 500)), (''page'', PInt page),
               (''order'', ordr), (''group'', grp), (''filter'', filt),
               (''target_organization_ids'', PStr (join '','' organizations))]\<rparr>] \<and>
   (entities_list_all c net name limit organizations ordr grp filt w = Some y \<longrightarrow>
      (\<exists>n. 1 \<le> n \<and>
         sent (snd y) =
           sent w @
           map (\<lambda>i. \<lparr>req_method = ''POST'',
                      req_url = client_url c @ ''entities/'' @ name @ ''/entityobjects/list'',
                      req_headers = [(''x-api-key'', client_api_key c)],
                      req_params =
                        PDict [(''page_size'', PInt (initial_page_size limit)), (''page'', PInt (1 + int i)),
                              (''order'', ordr), (''group'', grp), (''filter'', filt),
                              (''target_organization_ids'', PStr (join '','' organizations))],
                      req_json = PNone\<rparr>)
             [0..<n])) \<and>
   (datasources_list_all c net name limit organizations ordr grp filt w = Some y \<longrightarrow>
      (\<exists>n. 1 \<le> n \<and>
         sent (snd y) =
           sent w @
           map (\<lambda>i. \<lparr>req_method = ''POST'',
                      req_url = client_url c @ ''datasources/'' @ name @ ''/dataobjects/list'',
                      req_headers = [(''x-api-key'', client_api_key c)],
                      req_params = PNone,
                      req_json =
                        PDict [(''page_size'', PInt (initial_page_size limit)), (''page'', PInt (1 + int i)),
                              (''order'', ordr), (''group'', grp), (''filter'', filt),
                              (''target_organization_ids'', PStr (join '','' organizations))]\<rparr>)
             [0..<n])) \<and>
   (\<exists>E. entities_list_all c (script_net bs) name limit organizations ordr grp filt [] =
          Some (None, E) \<and>
        1 \<le> length (sent E) \<and>
        sent E =
          map (\<lambda>i. \<lparr>req_method = ''POST'',
                      req_url = client_url c @ ''entities/'' @ name @ ''/entityobjects/list'',
                      req_headers = [(''x-api-key'', client_api_key c)],
                      req_params =
                        PDict [(''page_size'', PInt (initial_page_size limit)), (''page'', PInt (1 + int i)),
                              (''order'', ordr), (''group'', grp), (''filter'', filt),
                              (''target_organization_ids'', PStr (join '','' organizations))],
                      req_json = PNone\<rparr>)
            [0..<length (sent E)]) \<and>
   (\<exists>E. datasources_list_all c (script_net bs) name limit organizations ordr grp filt [] =
          Some (None, E) \<and>
        1 \<le> length (sent E) \<and>
        sent E =
          map (\<lambda>i. \<lparr>req_method = ''POST'',
                      req_url = client_url c @ ''datasources/'' @ name @ ''/dataobjects/list'',
                      req_headers = [(''x-api-key'', client_api_key c)],
                      req_params = PNone,
                      req_json =
                        PDict [(''page_size'', PInt (initial_page_size limit)), (''page'', PInt (1 + int i)),
                              (''order'', ordr), (''group'', grp), (''filter'', filt),
                              (''target_organization_ids'', PStr (join '','' organizations))]\<rparr>)
            [0..<length (sent E)])"
proof (intro conjI)
  show "sent (snd (entities_list c net name organizations page_size page ordr grp filt w)) =
     sent w @
     [\<lparr>req_method = ''POST'',
       req_url = client_url c @ ''entities/'' @ name @ ''/entityobjects/list'',
       req_headers = [(''x-api-key'', client_api_key c)],
       req_params =
         PDict [(''page_size'', PInt (min page_size 500)), (''page'', PInt page),
               (''order'', ordr), (''group'', grp), (''filter'', filt),
               (''target_organization_ids'', PStr (join '','' organizations))],
       req_json = PNone\<rparr>]"
    by (simp add: entities_list_def check_page_size_def MAX_PAGE_SIZE_def client_post_def
        snd_send_request api_request_def min_def)
  show "sent (snd (datasources_list c net name organizations page_size page ordr grp filt w)) =
     sent w @
     [\<lparr>req_method = ''POST'',
       req_url = client_url c @ ''datasources/'' @ name @ ''/dataobjects/list'',
       req_headers = [(''x-api-key'', client_api_key c)],
       req_params = PNone,
       req_json =
         PDict [(''page_size'', PInt (min page_size 500)), (''page'', PInt page),
               (''order'', ordr), (''group'', grp), (''filter'', filt),
               (''target_organization_ids'', PStr (join '','' organizations))]\<rparr>]"
    by (simp add: datasources_list_def check_page_size_def MAX_PAGE_SIZE_def client_post_def
        snd_send_request api_request_def min_def)
  show "(entities_list_all c net name limit organizations ordr grp filt w = Some y \<longrightarrow>
      (\<exists>n. 1 \<le> n \<and>
         sent (snd y) =
           sent w @
           map (\<lambda>i. \<lparr>req_method = ''POST'',
                      req_url = client_url c @ ''entities/'' @ name @ ''/entityobjects/list'',
                      req_headers = [(''x-api-key'', client_api_key c)],
                      req_params =
                        PDict [(''page_size'', PInt (initial_page_size limit)), (''page'', PInt (1 + int i)),
                              (''order'', ordr), (''group'', grp), (''filter'', filt),
                              (''target_organization_ids'', PStr (join '','' organizations))],
                      req_json = PNone\<rparr>)
             [0..<n]))"
  proof
    assume run: "entities_list_all c net name limit organizations ordr grp filt w = Some y"
    show "\<exists>n. 1 \<le> n \<and>
         sent (snd y) =
           sent w @
           map (\<lambda>i. \<lparr>req_method = ''POST'',
                      req_url = client_url c @ ''entities/'' @ name @ ''/entityobjects/list'',
                      req_headers = [(''x-api-key'', client_api_key c)],
                      req_params =
                        PDict [(''page_size'', PInt (initial_page_size limit)), (''page'', PInt (1 + int i)),
                              (''order'', ordr), (''group'', grp), (''filter'', filt),
                              (''target_organization_ids'', PStr (join '','' organizations))],
                      req_json = PNone\<rparr>)
             [0..<n]"
      by (rule paginate_sent_general [OF run [unfolded entities_list_all_def client_post_fun]])
        (simp add: snd_send_request api_request_def)
  qed
  show "(datasources_list_all c net name limit organizations ordr grp filt w = Some y \<longrightarrow>
      (\<exists>n. 1 \<le> n \<and>
         sent (snd y) =
           sent w @
           map (\<lambda>i. \<lparr>req_method = ''POST'',
                      req_url = client_url c @ ''datasources/'' @ name @ ''/dataobjects/list'',
                      req_headers = [(''x-api-key'', client_api_key c)],
                      req_params = PNone,
                      req_json =
                        PDict [(''page_size'', PInt (initial_page_size limit)), (''page'', PInt (1 + int i)),
                              (''order'', ordr), (''group'', grp), (''filter'', filt),
                              (''target_organization_ids'', PStr (join '','' organizations))]\<rparr>)
             [0..<n]))"
  proof
    assume run: "datasources_list_all c net name limit organizations ordr grp filt w = Some y"
    show "\<exists>n. 1 \<le> n \<and>
         sent (snd y) =
           sent w @
           map (\<lambda>i. \<lparr>req_method = ''POST'',
                      req_url = client_url c @ ''datasources/'' @ name @ ''/dataobjects/list'',
                      req_headers = [(''x-api-key'', client_api_key c)],
                      req_params = PNone,
                      req_json =
                        PDict [(''page_size'', PInt (initial_page_size limit)), (''page'', PInt (1 + int i)),
                              (''order'', ordr), (''group'', grp), (''filter'', filt),
                              (''target_organization_ids'', PStr (join '','' organizations))]\<rparr>)
             [0..<n]"
      by (rule paginate_sent_general [OF run [unfolded datasources_list_all_def client_post_fun]])
        (simp add: snd_send_request api_request_def)
  qed
next
  let ?coll = "Entities name organizations ordr grp filt"
  let ?ps = "initial_page_size limit"
  let ?E = "script_events (page_request c ?coll ?ps) limit ?ps 1 0 bs"
  have "entities_list_all c (script_net bs) name limit organizations ordr grp filt [] =
      Some (None, ?E)"
    using list_all_of_script [of c bs ?coll limit] by simp
  moreover have "sent ?E = map (\<lambda>i. page_request c ?coll ?ps (1 + int i)) [0..<length (sent ?E)]"
    by (rule sent_script_events)
  moreover have "1 \<le> length (sent ?E)"
    using length_sent_script_events [of "page_request c ?coll ?ps" limit ?ps 1 0 bs] by simp
  ultimately show "\<exists>E. entities_list_all c (script_net bs) name limit organizations ordr grp filt [] =
          Some (None, E) \<and>
        1 \<le> length (sent E) \<and>
        sent E =
          map (\<lambda>i. \<lparr>req_method = ''POST'',
                      req_url = client_url c @ ''entities/'' @ name @ ''/entityobjects/list'',
                      req_headers = [(''x-api-key'', client_api_key c)],
                      req_params =
                        PDict [(''page_size'', PInt (initial_page_size limit)), (''page'', PInt (1 + int i)),
                              (''order'', ordr), (''group'', grp), (''filter'', filt),
                              (''target_organization_ids'', PStr (join '','' organizations))],
                      req_json = PNone\<rparr>)
            [0..<length (sent E)]"
    by (simp add: api_request_def)
next
  let ?coll = "DataSources name organizations ordr grp filt"
  let ?ps = "initial_page_size limit"
  let ?E = "script_events (page_request c ?coll ?ps) limit ?ps 1 0 bs"
  have "datasources_list_all c (script_net bs) name limit organizations ordr grp filt [] =
      Some (None, ?E)"
    using list_all_of_script [of c bs ?coll limit] by simp
  moreover have "sent ?E = map (\<lambda>i. page_request c ?coll ?ps (1 + int i)) [0..<length (sent ?E)]"
    by (rule sent_script_events)
  moreover have "1 \<le> length (sent ?E)"
    using length_sent_script_events [of "page_request c ?coll ?ps" limit ?ps 1 0 bs] by simp
  ultimately show "\<exists>E. datasources_list_all c (script_net bs) name limit organizations ordr grp filt [] =
          Some (None, E) \<and>
        1 \<le> length (sent E) \<and>
        sent E =
          map (\<lambda>i. \<lparr>req_method = ''POST'',
                      req_url = client_url c @ ''datasources/'' @ name @ ''/dataobjects/list'',
                      req_headers = [(''x-api-key'', client_api_key c)],
                      req_params = PNone,
                      req_json =
                        PDict [(''page_size'', PInt (initial_page_size limit)), (''page'', PInt (1 + int i)),
                              (''order'', ordr), (''group'', grp), (''filter'', filt),
                              (''target_organization_ids'', PStr (join '','' organizations))]\<rparr>)
            [0..<length (sent E)]"
    by (simp add: api_request_def)
qed

text \<open>
  C7 as stated fails for Entities: the request of \<^verbatim>\<open>Entities.list\<close> has no body, and the
  paging and filter parameters are its query parameters.
\<close>

theorem entities_list_body_counterexample:
  "map req_json (sent (snd (entities_list (BoardsOnFireClient ''example'' ''api_key'' ''v5'')
      (script_net [[]]) ''widget'' [''7'', ''8''] 100 1 PNone PNone PNone []))) = [PNone] \<and>
   map req_params (sent (snd (entities_list (BoardsOnFireClient ''example'' ''api_key'' ''v5'')
      (script_net [[]]) ''widget'' [''7'', ''8''] 100 1 PNone PNone PNone []))) =
     [PDict [(''page_size'', PInt 100), (''page'', PInt 1), (''order'', PNone),
             (''group'', PNone), (''filter'', PNone),
             (''target_organization_ids'', PStr ''7,8'')]]"
  by (simp add: entities_list_def check_page_size_def MAX_PAGE_SIZE_def client_post_def
      snd_send_request api_request_def)

text \<open>C7 on one page of one record: the request of each iterator, written out.\<close>

theorem listing_requests_of_entities_and_datasources_witness:
  "entities_list_all (BoardsOnFireClient ''example'' ''api_key'' ''v5'') (script_net [[PInt 1]])
     ''widget'' None [''7'', ''8''] PNone PNone PNone [] =
   Some (None,
     [Sent \<lparr>req_method = ''POST'',
            req_url = ''https://example.boardsonfireapp.com/api/v5/entities/widget/entityobjects/list'',
            req_headers = [(''x-api-key'', ''api_key'')],
            req_params =
              PDict [(''page_size'', PInt 100), (''page'', PInt 1), (''order'', PNone),
                     (''group'', PNone), (''filter'', PNone),
                     (''target_organization_ids'', PStr ''7,8'')],
            req_json = PNone\<rparr>,
      Yielded (PInt 1)]) \<and>
   datasources_list_all (BoardsOnFireClient ''example'' ''api_key'' ''v5'') (script_net [[PInt 1]])
     ''temps'' None [''7'', ''8''] PNone PNone PNone [] =
   Some (None,
     [Sent \<lparr>req_method = ''POST'',
            req_url = ''https://example.boardsonfireapp.com/api/v5/datasources/temps/dataobjects/list'',
            req_headers = [(''x-api-key'', ''api_key'')],
            req_params = PNone,
            req_json =
              PDict [(''page_size'', PInt 100), (''page'', PInt 1), (''order'', PNone),
                     (''group'', PNone), (''filter'', PNone),
                     (''target_organization_ids'', PStr ''7,8'')]\<rparr>,
      Yielded (PInt 1)])"
proof -
  let ?c = "BoardsOnFireClient ''example'' ''api_key'' ''v5''"
  let ?net = "script_net [[PInt 1]]"
  have e: "entities_list_all ?c ?net ''widget'' None [''7'', ''8''] PNone PNone PNone [] =
      Some (None,
        [Sent (page_request ?c (Entities ''widget'' [''7'', ''8''] PNone PNone PNone) 100 1),
         Yielded (PInt 1)])"
    using list_all_of_script [of ?c "[[PInt 1]]" "Entities ''widget'' [''7'', ''8''] PNone PNone PNone"
        None]
    by (simp add: initial_page_size_def emit_unlimited)
  have d: "datasources_list_all ?c ?net ''temps'' None [''7'', ''8''] PNone PNone PNone [] =
      Some (None,
        [Sent (page_request ?c (DataSources ''temps'' [''7'', ''8''] PNone PNone PNone) 100 1),
         Yielded (PInt 1)])"
    using list_all_of_script [of ?c "[[PInt 1]]" "DataSources ''temps'' [''7'', ''8''] PNone PNone PNone"
        None]
    by (simp add: initial_page_size_def emit_unlimited)
  note t = listing_requests_of_entities_and_datasources [where c = ?c and net = ?net
      and limit = None and organizations = "[''7'', ''8'']" and ordr = PNone and grp = PNone
      and filt = PNone and w = "[]"]
  from t [where name = "''widget''", THEN conjunct2, THEN conjunct2, THEN conjunct1, THEN mp, OF e]
    t [where name = "''temps''", THEN conjunct2, THEN conjunct2, THEN conjunct2, THEN conjunct1,
       THEN mp, OF d]
    e d
  show ?thesis
    by (simp add: api_request_def BoardsOnFireClient_def)
qed

subsection \<open>C8: the bodies of upsert\<close>

text \<open>
  C8. After its validation has passed, \<^verbatim>\<open>Entities.upsert\<close> sends one \<^verbatim>\<open>POST\<close> to the import
  path of the entity with the body \<^verbatim>\<open>{entity_objects: payload, delete_others: truncate}\<close>;
  \<^verbatim>\<open>DataSources.upsert\<close> sends one \<^verbatim>\<open>POST\<close> to the import path of the datasource with the
  payload list itself as the body, so without any \<open>delete_others\<close> flag.
\<close>

theorem upsert_request_bodies:
  "(ValidateEntity_upsert payload = Inr () \<longrightarrow>
      snd (entities_upsert c net name payload truncate_flag w) =
        w @ [Sent \<lparr>req_method = ''POST'',
                   req_url = client_url c @ ''entities/'' @ name @ ''/entityobjects/import'',
                   req_headers = [(''x-api-key'', client_api_key c)],
                   req_params = PNone,
                   req_json = PDict [(''entity_objects'', payload),
                                     (''delete_others'', PBool truncate_flag)]\<rparr>]) \<and>
   (ValidateDataSource_upsert payload = Inr () \<longrightarrow>
      snd (datasources_upsert c net name payload w) =
        w @ [Sent \<lparr>req_method = ''POST'',
                   req_url = client_url c @ ''datasources/'' @ name @ ''/dataobjects/import'',
                   req_headers = [(''x-api-key'', client_api_key c)],
                   req_params = PNone,
                   req_json = payload\<rparr>] \<and>
      (\<exists>rows. payload = PList rows))"
  by (auto simp: entities_upsert_def datasources_upsert_def client_post_def snd_send_request
      api_request_def ValidateDataSource_upsert_def split: pyval.splits)

text \<open>C8 on a list of one valid row each, with the URL written out.\<close>

theorem upsert_request_bodies_witness:
  "snd (entities_upsert (BoardsOnFireClient ''example'' ''api_key'' ''v5'')
         (const_net (ok_json (PList [PStr ''id1''])))
         ''widget'' (PList [PDict [(''organization_id'', PStr ''1'')]]) True []) =
     [Sent \<lparr>req_method = ''POST'',
            req_url = ''https://example.boardsonfireapp.com/api/v5/entities/widget/entityobjects/import'',
            req_headers = [(''x-api-key'', ''api_key'')],
            req_params = PNone,
            req_json = PDict [(''entity_objects'', PList [PDict [(''organization_id'', PStr ''1'')]]),
                              (''delete_others'', PBool True)]\<rparr>] \<and>
   snd (datasources_upsert (BoardsOnFireClient ''example'' ''api_key'' ''v5'')
         (const_net (ok_json (PList [PStr ''id1''])))
         ''temps''
         (PList [PDict [(''organization_id'', PStr ''1''), (''timestamp'', PStr ''2022-01-01'')]])
         []) =
     [Sent \<lparr>req_method = ''POST'',
            req_url = ''https://example.boardsonfireapp.com/api/v5/datasources/temps/dataobjects/import'',
            req_headers = [(''x-api-key'', ''api_key'')],
            req_params = PNone,
            req_json = PList [PDict [(''organization_id'', PStr ''1''),
                                     (''timestamp'', PStr ''2022-01-01'')]]\<rparr>]"
proof -
  let ?c = "BoardsOnFireClient ''example'' ''api_key'' ''v5''"
  let ?net = "const_net (ok_json (PList [PStr ''id1'']))"
  have e: "ValidateEntity_upsert (PList [PDict [(''organization_id'', PStr ''1'')]]) = Inr ()"
    by (simp add: ValidateEntity_upsert_def has_keys_PDict)
  have d: "ValidateDataSource_upsert
      (PList [PDict [(''organization_id'', PStr ''1''), (''timestamp'', PStr ''2022-01-01'')]]) = Inr ()"
    by (simp add: ValidateDataSource_upsert_def has_keys_PDict)
  from upsert_request_bodies [where c = ?c and net = ?net and w = "[]" and name = "''widget''"
      and truncate_flag = True, THEN conjunct1, THEN mp, OF e]
    upsert_request_bodies [where c = ?c and net = ?net and w = "[]" and name = "''temps''",
      THEN conjunct2, THEN mp, OF d]
  show ?thesis by (simp add: BoardsOnFireClient_def)
qed

subsection \<open>C9: creating an entity object\<close>

text \<open>
  C9. \<^verbatim>\<open>Entities.create("widget", {"organization_id": "123456", "name": "X"})\<close> sends exactly
  one request, whatever the service answers: a \<^verbatim>\<open>POST\<close> to
  \<^verbatim>\<open>entities/widget/entityobjects\<close> under the base URL, with that dictionary as the body.
  When the answer \<open>r\<close> is successful and decodes to \<open>d\<close>, the call returns \<open>d\<close>.
\<close>

theorem entities_create_scenario:
  assumes r: "r = net (sent w)
      \<lparr>req_method = ''POST'', req_url = client_url c @ ''entities/widget/entityobjects'',
       req_headers = [(''x-api-key'', client_api_key c)], req_params = PNone,
       req_json = PDict [(''organization_id'', PStr ''123456''), (''name'', PStr ''X'')]\<rparr>"
  shows
    "snd (entities_create c net ''widget''
            (PDict [(''organization_id'', PStr ''123456''), (''name'', PStr ''X'')]) w) =
       w @ [Sent \<lparr>req_method = ''POST'',
                  req_url = client_url c @ ''entities/widget/entityobjects'',
                  req_headers = [(''x-api-key'', client_api_key c)], req_params = PNone,
                  req_json = PDict [(''organization_id'', PStr ''123456''),
                                    (''name'', PStr ''X'')]\<rparr>] \<and>
     (ok r \<and> resp_json r = Some d \<longrightarrow>
        fst (entities_create c net ''widget''
               (PDict [(''organization_id'', PStr ''123456''), (''name'', PStr ''X'')]) w) =
          Inr d)"
proof -
  have v: "ValidateEntity_create
      (PDict [(''organization_id'', PStr ''123456''), (''name'', PStr ''X'')]) = Inr ()"
    by (simp add: ValidateEntity_create_def has_keys_PDict)
  show ?thesis
    unfolding r
    by (simp add: entities_create_def v client_post_def send_request_def Let_def
        response_data_def split: option.splits)
qed

text \<open>C9 against a service that answers 200 with a JSON object.\<close>

theorem entities_create_scenario_witness:
  "entities_create (BoardsOnFireClient ''example'' ''api_key'' ''v5'')
     (const_net (ok_json (PDict [(''id'', PStr ''42''), (''name'', PStr ''X'')])))
     ''widget'' (PDict [(''organization_id'', PStr ''123456''), (''name'', PStr ''X'')]) [] =
   (Inr (PDict [(''id'', PStr ''42''), (''name'', PStr ''X'')]),
    [Sent \<lparr>req_method = ''POST'',
           req_url = ''https://example.boardsonfireapp.com/api/v5/entities/widget/entityobjects'',
           req_headers = [(''x-api-key'', ''api_key'')], req_params = PNone,
           req_json = PDict [(''organization_id'', PStr ''123456''), (''name'', PStr ''X'')]\<rparr>])"
proof -
  let ?c = "BoardsOnFireClient ''example'' ''api_key'' ''v5''"
  let ?d = "PDict [(''id'', PStr ''42''), (''name'', PStr ''X'')]"
  from entities_create_scenario [OF refl, where c = ?c and net = "const_net (ok_json ?d)"
      and w = "[]" and d = ?d]
  show ?thesis
    by (intro prod_eqI) (simp_all add: const_net_def ok_json_def ok_def BoardsOnFireClient_def)
qed

subsection \<open>C10: the limit 0\<close>

text \<open>
  C10. For every service, a \<^verbatim>\<open>list_all\<close> with the limit \<open>0\<close> behaves exactly as the same
  call without a limit, on all four collections: the same requests, the same records,
  the same outcome, and no end either when the other has none. The page size is 100 in
  both cases and the limit check never fires. Against a scripted service the iteration
  with the limit \<open>0\<close> yields every record of the batches up to the first one that is empty
  or shorter than 100.
\<close>

theorem list_all_limit_zero_is_no_limit:
  "list_all_of c net coll (Some 0) w = list_all_of c net coll None w \<and>
   initial_page_size (Some 0) = 100 \<and> initial_page_size None = 100 \<and>
   (\<forall>n. \<not> limit_reached (Some 0) n) \<and>
   (\<exists>E. list_all_of c (script_net bs) coll (Some 0) [] = Some (None, E) \<and>
        yielded E = concat (take (Suc (full_pages 100 bs)) bs))"
proof (intro conjI)
  show "list_all_of c net coll (Some 0) w = list_all_of c net coll None w"
    by (cases coll)
      (simp_all add: organizations_list_all_def users_list_all_def entities_list_all_def
        datasources_list_all_def paginate_limit_zero initial_page_size_zero)
  show "\<forall>n. \<not> limit_reached (Some 0) n"
    by (simp add: limit_reached_def)
  let ?E = "script_events (page_request c coll 100) (Some 0) 100 1 0 bs"
  have run: "list_all_of c (script_net bs) coll (Some 0) [] = Some (None, ?E)"
    using list_all_of_script [of c bs coll "Some 0"] by (simp add: initial_page_size_zero)
  have off: "Some (0::int) = None \<or> Some (0::int) = Some 0" by simp
  have "length (sent ?E) = Suc (full_pages 100 bs)"
    by (rule sent_script_events_uncut) simp
  with yielded_script_events_unlimited [OF off, of "page_request c coll 100" 100 1 0 bs]
  have "yielded ?E = concat (take (Suc (full_pages 100 bs)) bs)" by simp
  with run show "\<exists>E. list_all_of c (script_net bs) coll (Some 0) [] = Some (None, E) \<and>
        yielded E = concat (take (Suc (full_pages 100 bs)) bs)"
    by blast
qed (simp_all add: initial_page_size_zero)


end
